theory Spec2Isabelle
  imports Complex_Main
begin

section \<open>Data model of the constraint solver\<close>

text \<open>
  The solver computes with Python floats. They are modelled as \<^typ>\<open>real\<close>: the
  statements below are about exact arithmetic, and "equal within floating tolerance"
  is read as equality. Rounding is written out in one place only, the section on
  double arithmetic; overflow and NaN are outside the model.
\<close>

type_synonym vec3 = "real \<times> real \<times> real"

text \<open>\<open>gp_Quaternion(x, y, z, w)\<close>: four components, of any norm.\<close>

record quaternion =
  qx :: real
  qy :: real
  qz :: real
  qw :: real

text \<open>
  Modelled from the spec: the rigid-transform type of the geometry kernel (\<open>gp_Trsf\<close>,
  wrapped by \<open>Location\<close>), which is not part of this source file. Following section 3
  and section 6 of the specification a pose is a translation vector together with a
  unit rotation quaternion. The record holds the pose as the kernel gives it back:
  \<open>translation\<close> is \<open>TranslationPart()\<close> and \<open>rotation\<close> is \<open>GetRotation()\<close>.
\<close>

record trsf =
  translation :: vec3
  rotation :: quaternion

type_synonym DOF6 = "real \<times> real \<times> real \<times> real \<times> real \<times> real"

text \<open>The Python exceptions that the modelled code can raise.\<close>

datatype py_error =
  ZeroDivisionError | NotImplementedError | TypeError | IndexError | AttributeError

definition quat :: "real \<Rightarrow> real \<Rightarrow> real \<Rightarrow> real \<Rightarrow> quaternion" where
  "quat x y z w = \<lparr>qx = x, qy = y, qz = z, qw = w\<rparr>"

definition SquareNorm :: "quaternion \<Rightarrow> real" where
  "SquareNorm q = (qx q)\<^sup>2 + (qy q)\<^sup>2 + (qz q)\<^sup>2 + (qw q)\<^sup>2"

definition negated :: "quaternion \<Rightarrow> quaternion" where
  "negated q = quat (- qx q) (- qy q) (- qz q) (- qw q)"

definition Normalized :: "quaternion \<Rightarrow> quaternion" where
  "Normalized q =
     (let n = sqrt (SquareNorm q) in quat (qx q / n) (qy q / n) (qz q / n) (qw q / n))"

text \<open>
  Modelled from the spec: section 3 makes the rotation of a pose a unit quaternion
  and leaves the sign of its w-component open. The sign is fixed here as the kernel
  fixes it, which is not part of this source file: the kernel keeps a rotation as a
  matrix, in which a quaternion and its negative are one rotation, and
  \<open>GetRotation()\<close> rebuilds a quaternion from the matrix. For a unit quaternion
  \<open>(x, y, z, w)\<close> the diagonal of the matrix is \<open>1 - 2 (y\<^sup>2 + z\<^sup>2)\<close>,
  \<open>1 - 2 (x\<^sup>2 + z\<^sup>2)\<close>, \<open>1 - 2 (x\<^sup>2 + y\<^sup>2)\<close> and its trace is \<open>4 w\<^sup>2 - 1\<close>. The
  quaternion that comes back has \<open>w\<close> positive when the trace is positive; otherwise
  \<open>x\<close> positive when the first diagonal entry exceeds the two others, else \<open>y\<close>
  positive when the second exceeds the third, else \<open>z\<close> positive. \<open>canonical\<close> gives
  that sign to a quaternion; what comes back has \<open>w\<close> between \<open>-1/2\<close> and \<open>1\<close>.
\<close>

definition canonical :: "quaternion \<Rightarrow> quaternion" where
  "canonical q =
     (if 0 < 4 * (qw q)\<^sup>2 - 1 then (if qw q < 0 then negated q else q)
      else if (qy q)\<^sup>2 < (qx q)\<^sup>2 \<and> (qz q)\<^sup>2 < (qx q)\<^sup>2 then (if qx q < 0 then negated q else q)
      else if (qz q)\<^sup>2 < (qy q)\<^sup>2 then (if qy q < 0 then negated q else q)
      else (if qz q < 0 then negated q else q))"

text \<open>
  Modelled from the spec: the three kernel calls of \<open>_build_transform\<close>. \<open>gp_Trsf()\<close>
  is the identity. \<open>SetTranslation\<close> makes the transform a pure translation.
  \<open>SetRotation\<close> makes it a pure rotation: the translation is set to zero, and the
  rotation kept is that of the quaternion divided by its norm, so that every pose
  holds a unit quaternion (section 3).
\<close>

definition gp_Trsf :: trsf where
  "gp_Trsf = \<lparr>translation = (0, 0, 0), rotation = quat 0 0 0 1\<rparr>"

definition SetTranslation :: "trsf \<Rightarrow> vec3 \<Rightarrow> trsf" where
  "SetTranslation t v = \<lparr>translation = v, rotation = quat 0 0 0 1\<rparr>"

definition SetRotation :: "trsf \<Rightarrow> quaternion \<Rightarrow> trsf" where
  "SetRotation t q = \<lparr>translation = (0, 0, 0), rotation = canonical (Normalized q)\<rparr>"

section \<open>PoseCodec\<close>

text \<open>
  \<open>_locToDOF6\<close>. \<open>v\<close> and \<open>q\<close> are \<open>TranslationPart()\<close> and \<open>GetRotation()\<close> of the
  transform. The quotient \<open>(1 - q.W()) / (1 + q.W())\<close> is a division of Python
  floats, which raises \<open>ZeroDivisionError\<close> when the divisor is zero; the divisions by
  the literal \<open>2\<close> cannot fail.
\<close>

definition locToDOF6 :: "trsf \<Rightarrow> py_error + DOF6" where
  "locToDOF6 loc =
     (let v = translation loc; q = rotation loc in
      if 1 + qw q = 0 then Inl ZeroDivisionError
      else
        let alpha_2 = (1 - qw q) / (1 + qw q);
            a = (alpha_2 + 1) * qx q / 2;
            b = (alpha_2 + 1) * qy q / 2;
            c = (alpha_2 + 1) * qz q / 2
        in Inr (fst v, fst (snd v), snd (snd v), a, b, c))"

text \<open>
  \<open>_build_transform\<close>, statement by statement. The three guarded quotients divide
  by \<open>m\<close> only when \<open>m != 0\<close>; the last quotient divides by \<open>m + 1\<close>, which is never
  zero because \<open>m\<close> is a sum of squares (lemma \<open>build_transform_divisor\<close> below), so
  the function has no failing branch. \<open>SetRotation\<close> is called after
  \<open>SetTranslation\<close>.
\<close>

definition build_transform ::
  "real \<Rightarrow> real \<Rightarrow> real \<Rightarrow> real \<Rightarrow> real \<Rightarrow> real \<Rightarrow> trsf" where
  "build_transform x y z a b c =
     (let rv = gp_Trsf;
          m = a\<^sup>2 + b\<^sup>2 + c\<^sup>2;
          rv = SetTranslation rv (x, y, z);
          rv = SetRotation rv
                 (quat (if m \<noteq> 0 then 2 * a / m else 0)
                       (if m \<noteq> 0 then 2 * b / m else 0)
                       (if m \<noteq> 0 then 2 * c / m else 0)
                       ((1 - m) / (m + 1)))
      in rv)"

text \<open>\<open>encode(decode(pose))\<close>: \<open>_build_transform(*_locToDOF6(loc))\<close>.\<close>

definition encode_decode :: "trsf \<Rightarrow> py_error + trsf" where
  "encode_decode loc =
     (case locToDOF6 loc of
        Inl e \<Rightarrow> Inl e
      | Inr (x, y, z, a, b, c) \<Rightarrow> Inr (build_transform x y z a b c))"

section \<open>Geometry kernel boundary\<close>

text \<open>
  Modelled from the spec: the point and direction primitives of the geometry kernel
  (\<open>gp_Pnt\<close>, \<open>gp_Dir\<close>) and their \<open>Transformed\<close> method are not part of this
  source file. How a transform moves a point, a direction, or an object of another
  type that has the method, is left open: the operations are the fields of a
  \<open>kernel\<close>, and every property of the residual below holds for each kernel.
\<close>

record kernel =
  pnt_transformed :: "trsf \<Rightarrow> vec3 \<Rightarrow> vec3"
  dir_transformed :: "trsf \<Rightarrow> vec3 \<Rightarrow> vec3"
  other_transformed :: "trsf \<Rightarrow> vec3 \<Rightarrow> vec3"

text \<open>
  A constraint marker as the code inspects it with \<open>isinstance\<close>: a \<open>gp_Pnt\<close>, a
  \<open>gp_Dir\<close>, or an object of another type. \<open>Other (Some v)\<close> is an object of
  another type that has \<open>Transformed(..).XYZ()\<close>, as a \<open>gp_Vec\<close> has; \<open>Other None\<close>
  is an object without it.
\<close>

datatype marker = Pnt vec3 | Dir vec3 | Other "vec3 option"

definition vsub :: "vec3 \<Rightarrow> vec3 \<Rightarrow> vec3" where
  "vsub u v = (fst u - fst v, fst (snd u) - fst (snd v), snd (snd u) - snd (snd v))"

definition Modulus :: "vec3 \<Rightarrow> real" where
  "Modulus v = sqrt ((fst v)\<^sup>2 + (fst (snd v))\<^sup>2 + (snd (snd v))\<^sup>2)"

definition Dot :: "vec3 \<Rightarrow> vec3 \<Rightarrow> real" where
  "Dot u v = fst u * fst v + fst (snd u) * fst (snd v) + snd (snd u) * snd (snd v)"

text \<open>\<open>m.Transformed(t).XYZ()\<close>: the coordinates of the transformed marker.\<close>

fun Transformed_XYZ :: "kernel \<Rightarrow> marker \<Rightarrow> trsf \<Rightarrow> py_error + vec3" where
  "Transformed_XYZ K (Pnt p) t = Inr (pnt_transformed K t p)"
| "Transformed_XYZ K (Dir d) t = Inr (dir_transformed K t d)"
| "Transformed_XYZ K (Other (Some v)) t = Inr (other_transformed K t v)"
| "Transformed_XYZ K (Other None) t = Inl AttributeError"

section \<open>SparsityBuilder\<close>

text \<open>
  The constraint mapping is a Python dict iterated in insertion order: an association
  list from the pair \<open>(k1, k2)\<close> to the pair of marker sequences \<open>(ms1, ms2)\<close>. Entity
  indices are 0-based positions and are modelled as natural numbers.
\<close>

type_synonym Constraint = "marker list \<times> marker list"

type_synonym constraint_map = "((nat \<times> nat) \<times> Constraint) list"

record ConstraintSolver =
  entities :: "DOF6 list"
  constraints :: constraint_map
  ne :: nat
  nc :: nat

text \<open>
  \<open>row[lo:hi] = v\<close> on a numpy row: the slice is clipped to the row, positions outside
  it keep their value.
\<close>

definition set_slice :: "real list \<Rightarrow> nat \<Rightarrow> nat \<Rightarrow> real \<Rightarrow> real list" where
  "set_slice row lo hi v =
     map (\<lambda>j. if lo \<le> j \<and> j < hi then v else row ! j) [0..<length row]"

text \<open>The loop of \<open>_jacobianSparsity\<close> over \<open>enumerate(self.constraints)\<close>.\<close>

fun sparsity_loop :: "nat \<Rightarrow> (nat \<times> nat) list \<Rightarrow> real list list \<Rightarrow> real list list" where
  "sparsity_loop i [] rv = rv"
| "sparsity_loop i ((k1, k2) # ks) rv =
     sparsity_loop (Suc i) ks
       (rv[i := set_slice (set_slice (rv ! i) (6 * k1) (6 * (k1 + 1)) 1)
                          (6 * k2) (6 * (k2 + 1)) 1])"

definition jacobianSparsity :: "ConstraintSolver \<Rightarrow> real list list" where
  "jacobianSparsity s =
     sparsity_loop 0 (map fst (constraints s))
       (replicate (nc s) (replicate (6 * ne s) 0))"

section \<open>ResidualEvaluator\<close>

text \<open>
  \<open>self._build_transform(*x[6 * i : 6 * (i + 1)])\<close>: the call unpacks the slice into
  the six parameters and raises \<open>TypeError\<close> when the slice has another length.
\<close>

fun build_transform_args :: "real list \<Rightarrow> py_error + trsf" where
  "build_transform_args [x, y, z, a, b, c] = Inr (build_transform x y z a b c)"
| "build_transform_args _ = Inl TypeError"

text \<open>The list comprehension over \<open>range(ne)\<close>; the first exception ends it.\<close>

fun build_transforms :: "real list \<Rightarrow> nat list \<Rightarrow> py_error + trsf list" where
  "build_transforms x [] = Inr []"
| "build_transforms x (i # is) =
     (case build_transform_args (take 6 (drop (6 * i) x)) of
        Inl e \<Rightarrow> Inl e
      | Inr t \<Rightarrow>
          (case build_transforms x is of
             Inl e \<Rightarrow> Inl e
           | Inr ts \<Rightarrow> Inr (t # ts)))"

text \<open>
  The body of the loop over \<open>zip(ms1, ms2)\<close>: the amount added to \<open>rv[i]\<close> for one
  marker pair. The branch is chosen by the type of \<open>m1\<close> alone. In the \<open>gp_Pnt\<close>
  branch \<open>m2\<close> only has to offer \<open>Transformed(..).XYZ()\<close>. In the \<open>gp_Dir\<close> branch
  \<open>m2.Transformed(t2)\<close> is evaluated first, and the product \<open>*\<close> is the kernel's dot
  product of two directions, which accepts nothing else.
\<close>

fun pair_term :: "kernel \<Rightarrow> trsf \<Rightarrow> trsf \<Rightarrow> marker \<Rightarrow> marker \<Rightarrow> py_error + real" where
  "pair_term K t1 t2 (Pnt p1) m2 =
     (case Transformed_XYZ K m2 t2 of
        Inl e \<Rightarrow> Inl e
      | Inr w2 \<Rightarrow> Inr (Modulus (vsub (pnt_transformed K t1 p1) w2)))"
| "pair_term K t1 t2 (Dir d1) (Dir d2) =
     Inr (Dot (dir_transformed K t1 d1) (dir_transformed K t2 d2))"
| "pair_term K t1 t2 (Dir d1) (Pnt p2) = Inl TypeError"
| "pair_term K t1 t2 (Dir d1) (Other (Some v)) = Inl TypeError"
| "pair_term K t1 t2 (Dir d1) (Other None) = Inl AttributeError"
| "pair_term K t1 t2 (Other obj) m2 = Inl NotImplementedError"

text \<open>The inner loop: \<open>acc\<close> is the running value of \<open>rv[i]\<close>.\<close>

fun marker_loop ::
  "kernel \<Rightarrow> trsf \<Rightarrow> trsf \<Rightarrow> (marker \<times> marker) list \<Rightarrow> real \<Rightarrow> py_error + real" where
  "marker_loop K t1 t2 [] acc = Inr acc"
| "marker_loop K t1 t2 ((m1, m2) # ps) acc =
     (case pair_term K t1 t2 m1 m2 of
        Inl e \<Rightarrow> Inl e
      | Inr d \<Rightarrow> marker_loop K t1 t2 ps (acc + d))"

text \<open>
  The outer loop over \<open>enumerate(constraints.items())\<close>. \<open>transforms[k]\<close> raises
  \<open>IndexError\<close> when \<open>k\<close> is not below the number of transforms.
\<close>

fun constraint_loop ::
  "kernel \<Rightarrow> trsf list \<Rightarrow> nat \<Rightarrow> constraint_map \<Rightarrow> real list \<Rightarrow> py_error + real list" where
  "constraint_loop K ts i [] rv = Inr rv"
| "constraint_loop K ts i (((k1, k2), (ms1, ms2)) # cs) rv =
     (if length ts \<le> k1 then Inl IndexError
      else if length ts \<le> k2 then Inl IndexError
      else
        (case marker_loop K (ts ! k1) (ts ! k2) (zip ms1 ms2) (rv ! i) of
           Inl e \<Rightarrow> Inl e
         | Inr r \<Rightarrow> constraint_loop K ts (Suc i) cs (rv[i := r])))"

text \<open>The function \<open>f\<close> returned by \<open>_cost\<close>.\<close>

definition cost :: "kernel \<Rightarrow> ConstraintSolver \<Rightarrow> real list \<Rightarrow> py_error + real list" where
  "cost K s x =
     (case build_transforms x [0..<ne s] of
        Inl e \<Rightarrow> Inl e
      | Inr ts \<Rightarrow> constraint_loop K ts 0 (constraints s) (replicate (nc s) 0))"

section \<open>SolveDriver\<close>

text \<open>\<open>__init__\<close>: the list comprehension decodes every initial pose.\<close>

fun decode_all :: "trsf list \<Rightarrow> py_error + DOF6 list" where
  "decode_all [] = Inr []"
| "decode_all (loc # locs) =
     (case locToDOF6 loc of
        Inl e \<Rightarrow> Inl e
      | Inr d \<Rightarrow>
          (case decode_all locs of
             Inl e \<Rightarrow> Inl e
           | Inr ds \<Rightarrow> Inr (d # ds)))"

definition init :: "trsf list \<Rightarrow> constraint_map \<Rightarrow> py_error + ConstraintSolver" where
  "init locs cs =
     (case decode_all locs of
        Inl e \<Rightarrow> Inl e
      | Inr ds \<Rightarrow>
          Inr \<lparr>entities = ds, constraints = cs, ne = length locs, nc = length cs\<rparr>)"

fun ravel :: "DOF6 list \<Rightarrow> real list" where
  "ravel [] = []"
| "ravel ((x, y, z, a, b, c) # ds) = [x, y, z, a, b, c] @ ravel ds"

text \<open>
  Modelled from the spec: the least-squares routine (\<open>scipy.optimize.least_squares\<close>)
  is an external black box (section 6). It is a parameter \<open>lsq\<close> of \<open>solve\<close>: given
  the residual function, the initial vector and the sparsity matrix it returns the
  final vector, or the exception that left it.
\<close>

type_synonym optimizer =
  "(real list \<Rightarrow> py_error + real list) \<Rightarrow> real list \<Rightarrow> real list list \<Rightarrow> py_error + real list"

definition solve :: "kernel \<Rightarrow> optimizer \<Rightarrow> ConstraintSolver \<Rightarrow> py_error + trsf list" where
  "solve K lsq s =
     (let x0 = ravel (entities s) in
      case lsq (cost K s) x0 (jacobianSparsity s) of
        Inl e \<Rightarrow> Inl e
      | Inr x \<Rightarrow> build_transforms x [0..<ne s])"

text \<open>
  An optimizer that evaluates the residual once at the initial vector and returns
  that vector: the run of a least-squares routine that stops before its first step.
\<close>

definition lsq_initial :: optimizer where
  "lsq_initial f x0 J = (case f x0 of Inl e \<Rightarrow> Inl e | Inr r \<Rightarrow> Inr x0)"

text \<open>
  A kernel for evaluating examples: the rotation matrix of the quaternion, scaled by
  its squared norm, applied to the vector; a point is translated afterwards.
\<close>

definition rotate :: "quaternion \<Rightarrow> vec3 \<Rightarrow> vec3" where
  "rotate q v =
     (let s = 2 / SquareNorm q;
          x = qx q; y = qy q; z = qz q; w = qw q;
          v1 = fst v; v2 = fst (snd v); v3 = snd (snd v)
      in ((1 - s * (y * y + z * z)) * v1 + s * (x * y - w * z) * v2 + s * (x * z + w * y) * v3,
          s * (x * y + w * z) * v1 + (1 - s * (x * x + z * z)) * v2 + s * (y * z - w * x) * v3,
          s * (x * z - w * y) * v1 + s * (y * z + w * x) * v2 + (1 - s * (x * x + y * y)) * v3))"

definition std_kernel :: kernel where
  "std_kernel =
     \<lparr>pnt_transformed = (\<lambda>t p. let r = rotate (rotation t) p; d = translation t
                              in (fst r + fst d, fst (snd r) + fst (snd d), snd (snd r) + snd (snd d))),
      dir_transformed = (\<lambda>t d. rotate (rotation t) d),
      other_transformed = (\<lambda>t v. rotate (rotation t) v)\<rparr>"

section \<open>Double arithmetic\<close>

text \<open>
  One statement about \<open>_build_transform\<close> is decided by rounding: the interval of
  its last quaternion component, \<open>(1 - m) / (m + 1)\<close>. For it the arithmetic of
  Python floats is written out. \<open>binary64\<close> is the rounding of IEEE 754 doubles, to
  nearest with ties to even, of a real number in the normal range of magnitudes:
  a number of magnitude in \<open>[2^e, 2^(e+1))\<close> is rounded to a multiple of \<open>2^(e-52)\<close>.
  Each float operation is the real operation followed by this rounding.
  \<open>w_binary64\<close> is the computation of \<open>m = a ** 2 + b ** 2 + c ** 2\<close> and of
  \<open>(1 - m) / (m + 1)\<close> in that arithmetic.
\<close>

definition round_ties_even :: "real \<Rightarrow> int" where
  "round_ties_even r =
     (let f = \<lfloor>r\<rfloor>; d = r - of_int f
      in if d < 1/2 then f else if 1/2 < d then f + 1 else if even f then f else f + 1)"

definition binary64 :: "real \<Rightarrow> real" where
  "binary64 r =
     (if r = 0 then 0
      else let e = \<lfloor>log 2 \<bar>r\<bar>\<rfloor>; u = 2 powr of_int (e - 52)
           in of_int (round_ties_even (r / u)) * u)"

definition w_binary64 :: "real \<Rightarrow> real \<Rightarrow> real \<Rightarrow> real" where
  "w_binary64 a b c =
     (let m = binary64 (binary64 (binary64 (a * a) + binary64 (b * b)) + binary64 (c * c))
      in binary64 (binary64 (1 - m) / binary64 (m + 1)))"

section \<open>Example inputs\<close>

text \<open>A pose with a unit quaternion: a rotation about the first axis with \<open>w = 4/5\<close>.\<close>

definition pose0 :: trsf where
  "pose0 = \<lparr>translation = (0, 0, 0), rotation = quat (3/5) 0 0 (4/5)\<rparr>"

definition solver0 :: ConstraintSolver where
  "solver0 = \<lparr>entities = [(0, 0, 0, 1/3, 0, 0)], constraints = [], ne = 1, nc = 0\<rparr>"

definition solver1 :: ConstraintSolver where
  "solver1 = \<lparr>entities = [(0, 0, 0, 1/3, 0, 0), (0, 0, 0, 1/3, 0, 0)],
              constraints = [((0, 1), ([], []))], ne = 2, nc = 1\<rparr>"

section \<open>Vocabulary of the statements\<close>

text \<open>
  The definitions of this section follow the words of the specification, not the
  code: the kind shared by a marker pair, the Euclidean distance, the pose decoded
  from the block of an entity, the residual term of a pair, the quaternions that
  the kernel gives back (unit norm, sign as \<open>GetRotation()\<close> chooses it), the DOF6
  and the rotation quaternion of section 4.1, and the invariant of a constraint
  (indices below the entity count, pairs of one kind).
\<close>

fun same_kind :: "marker \<Rightarrow> marker \<Rightarrow> bool" where
  "same_kind (Pnt p1) (Pnt p2) = True"
| "same_kind (Dir d1) (Dir d2) = True"
| "same_kind m1 m2 = False"

definition euclidean_distance :: "vec3 \<Rightarrow> vec3 \<Rightarrow> real" where
  "euclidean_distance u v =
     sqrt ((fst u - fst v)\<^sup>2 + (fst (snd u) - fst (snd v))\<^sup>2 + (snd (snd u) - snd (snd v))\<^sup>2)"

definition entity_pose :: "real list \<Rightarrow> nat \<Rightarrow> trsf" where
  "entity_pose x k =
     build_transform (x ! (6 * k)) (x ! (6 * k + 1)) (x ! (6 * k + 2))
                     (x ! (6 * k + 3)) (x ! (6 * k + 4)) (x ! (6 * k + 5))"

fun spec_pair_residual :: "kernel \<Rightarrow> trsf \<Rightarrow> trsf \<Rightarrow> marker \<times> marker \<Rightarrow> real" where
  "spec_pair_residual K t1 t2 (Pnt p1, Pnt p2) =
     euclidean_distance (pnt_transformed K t1 p1) (pnt_transformed K t2 p2)"
| "spec_pair_residual K t1 t2 (Dir d1, Dir d2) =
     Dot (dir_transformed K t1 d1) (dir_transformed K t2 d2)"
| "spec_pair_residual K t1 t2 (m1, m2) = 0"

definition GetRotation_value :: "quaternion \<Rightarrow> bool" where
  "GetRotation_value q \<longleftrightarrow> SquareNorm q = 1 \<and> canonical q = q"

definition decode_spec :: "trsf \<Rightarrow> DOF6" where
  "decode_spec loc =
     (let q = rotation loc; alpha = (1 - qw q) / (1 + qw q)
      in (fst (translation loc), fst (snd (translation loc)), snd (snd (translation loc)),
          (alpha + 1) * qx q / 2, (alpha + 1) * qy q / 2, (alpha + 1) * qz q / 2))"

definition encoder_quaternion :: "real \<Rightarrow> real \<Rightarrow> real \<Rightarrow> quaternion" where
  "encoder_quaternion a b c =
     (let m = a\<^sup>2 + b\<^sup>2 + c\<^sup>2
      in if m \<noteq> 0 then quat (2 * a / m) (2 * b / m) (2 * c / m) ((1 - m) / (m + 1))
         else quat 0 0 0 1)"

fun well_kinded :: "nat \<Rightarrow> (nat \<times> nat) \<times> Constraint \<Rightarrow> bool" where
  "well_kinded n ((k1, k2), (ms1, ms2)) =
     (k1 < n \<and> k2 < n \<and> (\<forall>(m1, m2)\<in>set (zip ms1 ms2). same_kind m1 m2))"

section \<open>Further example inputs\<close>

text \<open>
  Two entities, the first at the identity pose and the second translated by
  \<open>(1, 0, 0)\<close>; \<open>solver_of cs\<close> is the solver that the constructor builds from
  them and the constraint mapping \<open>cs\<close>.
\<close>

definition pose_id :: trsf where
  "pose_id = \<lparr>translation = (0, 0, 0), rotation = quat 0 0 0 1\<rparr>"

definition pose_x1 :: trsf where
  "pose_x1 = \<lparr>translation = (1, 0, 0), rotation = quat 0 0 0 1\<rparr>"

definition x_two :: "real list" where
  "x_two = [0, 0, 0, 0, 0, 0, 1, 0, 0, 0, 0, 0]"

definition solver_of :: "constraint_map \<Rightarrow> ConstraintSolver" where
  "solver_of cs = \<lparr>entities = [(0, 0, 0, 0, 0, 0), (1, 0, 0, 0, 0, 0)],
                   constraints = cs, ne = 2, nc = length cs\<rparr>"

definition cs_mixed :: constraint_map where
  "cs_mixed = [((0, 1), ([Pnt (0, 0, 0), Dir (1, 0, 0)], [Pnt (0, 0, 0), Dir (0, 1, 0)]))]"

definition cs_unequal :: constraint_map where
  "cs_unequal = [((0, 1), ([Pnt (0, 0, 0), Pnt (5, 5, 5)], [Pnt (0, 0, 0)]))]"

definition cs_point_direction :: constraint_map where
  "cs_point_direction = [((0, 1), ([Pnt (0, 0, 0)], [Dir (1, 0, 0)]))]"

definition cs_other :: constraint_map where
  "cs_other = [((0, 1), ([Other None], [Pnt (0, 0, 0)]))]"

definition y_two :: "real list" where
  "y_two = [0, 0, 0, 0, 0, 0, 7, 0, 0, 0, 0, 0]"

definition cs_self :: constraint_map where
  "cs_self = [((0, 0), ([Pnt (0, 0, 0)], [Pnt (1, 2, 2)]))]"

section \<open>Properties of the PoseCodec\<close>

lemma build_transform_divisor: "a\<^sup>2 + b\<^sup>2 + c\<^sup>2 + 1 \<noteq> (0::real)"
proof -
  have "0 \<le> a\<^sup>2 + b\<^sup>2 + c\<^sup>2" by simp
  then show ?thesis by linarith
qed

lemma build_transform_eq:
  "build_transform x y z a b c
   = \<lparr>translation = (0, 0, 0), rotation = canonical (Normalized (encoder_quaternion a b c))\<rparr>"
  by (simp add: build_transform_def SetRotation_def encoder_quaternion_def Let_def)

lemma encoder_quaternion_qw:
  "qw (encoder_quaternion a b c) = (1 - (a\<^sup>2 + b\<^sup>2 + c\<^sup>2)) / ((a\<^sup>2 + b\<^sup>2 + c\<^sup>2) + 1)"
  by (simp add: encoder_quaternion_def quat_def Let_def)

lemma cayley_w_bounds:
  fixes m :: real
  assumes "0 \<le> m"
  shows "-1 < (1 - m) / (m + 1)" and "(1 - m) / (m + 1) \<le> 1"
proof -
  have pos: "0 < m + 1" using assms by linarith
  show "-1 < (1 - m) / (m + 1)"
    using pos by (simp add: pos_less_divide_eq)
  show "(1 - m) / (m + 1) \<le> 1"
    using pos assms by (simp add: pos_divide_le_eq)
qed










lemma half_of_square:
  fixes w :: real
  assumes "\<not> 0 < 4 * w\<^sup>2 - 1"
  shows "- (1/2) \<le> w" and "w \<le> 1/2"
proof -
  have "w\<^sup>2 \<le> (1/2)\<^sup>2" using assms by (simp add: power2_eq_square)
  then have "\<bar>w\<bar> \<le> 1/2" by (metis abs_le_square_iff abs_numeral abs_divide abs_one)
  then show "- (1/2) \<le> w" and "w \<le> 1/2" by linarith+
qed

lemma canonical_w_lower: "- (1/2) \<le> qw (canonical q)"
proof (cases "0 < 4 * (qw q)\<^sup>2 - 1")
  case True
  then show ?thesis by (simp add: canonical_def negated_def quat_def)
next
  case False
  have "- (1/2) \<le> qw q" "- (1/2) \<le> - qw q" using half_of_square [OF False] by simp_all
  then show ?thesis using False by (simp add: canonical_def negated_def quat_def)
qed




lemma locToDOF6_returns:
  "1 + qw (rotation loc) \<noteq> 0 \<Longrightarrow> locToDOF6 loc = Inr (decode_spec loc)"
  by (simp add: locToDOF6_def decode_spec_def Let_def)


lemma sqrt_916_25: "sqrt (916 / 25) = 2 * sqrt 229 / 5"
proof -
  have "sqrt (4 * 229) = sqrt 4 * sqrt 229" by (rule real_sqrt_mult)
  then have n: "sqrt 916 = 2 * sqrt 229" by simp
  have "sqrt (5\<^sup>2) = (5::real)" by simp
  then have d: "sqrt 25 = (5::real)" by simp
  have "sqrt (916 / 25) = sqrt 916 / sqrt 25" by (rule real_sqrt_divide)
  then show ?thesis unfolding n d .
qed

lemma Normalized_6_0_0_45:
  "Normalized (quat 6 0 0 (4/5)) = quat (15 / sqrt 229) 0 0 (2 / sqrt 229)"
proof -
  have sn: "SquareNorm (quat 6 0 0 (4/5)) = 916 / 25"
    by (simp add: SquareNorm_def quat_def power2_eq_square)
  show ?thesis
    unfolding Normalized_def Let_def sn sqrt_916_25 by (simp add: quat_def)
qed

lemma canonical_15_2:
  "canonical (quat (15 / sqrt 229) 0 0 (2 / sqrt 229)) = quat (15 / sqrt 229) 0 0 (2 / sqrt 229)"
  by (simp add: canonical_def quat_def power_divide)

lemma build_transform_third:
  "build_transform 0 0 0 (1/3) 0 0
   = \<lparr>translation = (0, 0, 0), rotation = quat (15 / sqrt 229) 0 0 (2 / sqrt 229)\<rparr>"
proof -
  have "encoder_quaternion (1/3) 0 0 = quat 6 0 0 (4/5)"
    by (simp add: encoder_quaternion_def Let_def power2_eq_square)
  then show ?thesis by (simp add: build_transform_eq Normalized_6_0_0_45 canonical_15_2)
qed

lemma quat_15_2_not_pose0:
  "\<lparr>translation = (0, 0, 0), rotation = quat (15 / sqrt 229) 0 0 (2 / sqrt 229)\<rparr> \<noteq> pose0"
proof
  assume "\<lparr>translation = (0, 0, 0), rotation = quat (15 / sqrt 229) 0 0 (2 / sqrt 229)\<rparr> = pose0"
  then have "2 / sqrt 229 = (4/5 :: real)" by (simp add: pose0_def quat_def)
  then have "(2 / sqrt 229)\<^sup>2 = (4/5 :: real)\<^sup>2" by simp
  then show False by (simp add: power_divide power2_eq_square)
qed

lemma build_transform_identity: "build_transform x y z 0 0 0 = pose_id"
proof -
  have e: "encoder_quaternion 0 0 0 = quat 0 0 0 1"
    by (simp add: encoder_quaternion_def Let_def)
  have n: "Normalized (quat 0 0 0 1) = quat 0 0 0 1"
    by (simp add: Normalized_def SquareNorm_def quat_def Let_def)
  have c: "canonical (quat 0 0 0 1) = quat 0 0 0 1"
    by (simp add: canonical_def quat_def)
  show ?thesis by (simp add: build_transform_eq e n c pose_id_def)
qed

text \<open>
  Claim C1. The claim says that \<open>_build_transform\<close> applied to the result of
  \<open>_locToDOF6\<close> gives the pose back when \<open>w > -1\<close>. For the pose \<open>pose0\<close>, with the
  unit quaternion \<open>(3/5, 0, 0, 4/5)\<close> as the kernel gives it back, the decoder
  returns \<open>a = 1/3\<close>, the encoder hands \<open>(6, 0, 0, 4/5)\<close> to the kernel, and the pose
  that comes back holds \<open>(15, 0, 0, 2) / sqrt 229\<close>: another rotation. For the pose
  \<open>pose_x1\<close>, translated by \<open>(1, 0, 0)\<close>, the identity pose comes back: the
  translation is lost, because \<open>SetRotation\<close> is called after \<open>SetTranslation\<close>.
\<close>

theorem roundtrip_fails:
  "GetRotation_value (rotation pose0) \<and> -1 < qw (rotation pose0)
   \<and> locToDOF6 pose0 = Inr (0, 0, 0, 1/3, 0, 0)
   \<and> encode_decode pose0
       = Inr \<lparr>translation = (0, 0, 0), rotation = quat (15 / sqrt 229) 0 0 (2 / sqrt 229)\<rparr>
   \<and> encode_decode pose0 \<noteq> Inr pose0
   \<and> GetRotation_value (rotation pose_x1)
   \<and> encode_decode pose_x1 = Inr pose_id
   \<and> encode_decode pose_x1 \<noteq> Inr pose_x1"
proof -
  have g0: "GetRotation_value (rotation pose0)"
    by (simp add: GetRotation_value_def pose0_def SquareNorm_def canonical_def quat_def
        power2_eq_square)
  have w0: "-1 < qw (rotation pose0)" by (simp add: pose0_def quat_def)
  have d0: "locToDOF6 pose0 = Inr (0, 0, 0, 1/3, 0, 0)"
    by (simp add: pose0_def locToDOF6_def quat_def Let_def)
  have e0: "encode_decode pose0
       = Inr \<lparr>translation = (0, 0, 0), rotation = quat (15 / sqrt 229) 0 0 (2 / sqrt 229)\<rparr>"
    by (simp add: encode_decode_def d0 build_transform_third)
  have n0: "encode_decode pose0 \<noteq> Inr pose0" unfolding e0 using quat_15_2_not_pose0 by simp
  have g1: "GetRotation_value (rotation pose_x1)"
    by (simp add: GetRotation_value_def pose_x1_def SquareNorm_def canonical_def quat_def)
  have d1: "locToDOF6 pose_x1 = Inr (1, 0, 0, 0, 0, 0)"
    by (simp add: pose_x1_def locToDOF6_def quat_def Let_def)
  have e1: "encode_decode pose_x1 = Inr pose_id"
    by (simp add: encode_decode_def d1 build_transform_identity)
  have n1: "encode_decode pose_x1 \<noteq> Inr pose_x1"
    unfolding e1 by (simp add: pose_id_def pose_x1_def)
  show ?thesis using g0 w0 d0 e0 n0 g1 e1 n1 by blast
qed

section \<open>Properties of the SolveDriver\<close>


lemma build_transform_args_translation:
  "build_transform_args l = Inr t \<Longrightarrow> translation t = (0, 0, 0)"
  by (induction l rule: build_transform_args.induct) (auto simp add: build_transform_eq)

lemma build_transforms_translation:
  "build_transforms x ks = Inr ts \<Longrightarrow> \<forall>t\<in>set ts. translation t = (0, 0, 0)"
proof (induction ks arbitrary: ts)
  case Nil
  then show ?case by simp
next
  case (Cons k ks)
  then show ?case
    by (auto split: sum.splits dest: build_transform_args_translation)
qed

lemma init_two: "init [pose_id, pose_x1] cs = Inr (solver_of cs)"
  by (simp add: init_def solver_of_def pose_id_def pose_x1_def locToDOF6_def quat_def Let_def)

lemma transforms_two:
  "build_transforms x_two [0..<2] = Inr [pose_id, pose_id]"
proof -
  have "[0..<2] = [0, 1]" by (simp add: upt_rec)
  then show ?thesis by (simp add: x_two_def build_transform_identity)
qed

text \<open>
  Claim C6. The claim says that with no constraints \<open>solve()\<close> returns the initial
  poses. For the single pose \<open>pose0\<close> construction succeeds and the residual vector is
  empty, but with the optimizer that returns its initial vector \<open>solve()\<close> returns
  the rotation \<open>(15, 0, 0, 2) / sqrt 229\<close>. For the two poses \<open>pose_id\<close> and
  \<open>pose_x1\<close> it returns the identity pose twice, and with no optimizer at all can
  it return \<open>pose_x1\<close>: every pose that \<open>solve()\<close> returns has the translation zero.
\<close>

theorem solve_without_constraints_changes_pose:
  "init [pose0] [] = Inr solver0
   \<and> cost K solver0 (ravel (entities solver0)) = Inr []
   \<and> solve K lsq_initial solver0
       = Inr [\<lparr>translation = (0, 0, 0), rotation = quat (15 / sqrt 229) 0 0 (2 / sqrt 229)\<rparr>]
   \<and> solve K lsq_initial solver0 \<noteq> Inr [pose0]
   \<and> init [pose_id, pose_x1] [] = Inr (solver_of [])
   \<and> cost K (solver_of []) (ravel (entities (solver_of []))) = Inr []
   \<and> solve K lsq_initial (solver_of []) = Inr [pose_id, pose_id]
   \<and> solve K lsq (solver_of []) \<noteq> Inr [pose_id, pose_x1]"
proof -
  have i: "init [pose0] [] = Inr solver0"
    by (simp add: init_def solver0_def pose0_def locToDOF6_def quat_def Let_def)
  have c: "cost K solver0 (ravel (entities solver0)) = Inr []"
    by (simp add: cost_def solver0_def build_transform_third)
  have s: "solve K lsq_initial solver0
       = Inr [\<lparr>translation = (0, 0, 0), rotation = quat (15 / sqrt 229) 0 0 (2 / sqrt 229)\<rparr>]"
    using c by (simp add: solve_def lsq_initial_def Let_def) (simp add: solver0_def build_transform_third)
  have n: "solve K lsq_initial solver0 \<noteq> Inr [pose0]"
    unfolding s using quat_15_2_not_pose0 by simp
  have i2: "init [pose_id, pose_x1] [] = Inr (solver_of [])" by (rule init_two)
  have x0: "ravel (entities (solver_of [])) = x_two" by (simp add: solver_of_def x_two_def)
  have c2: "cost K (solver_of []) (ravel (entities (solver_of []))) = Inr []"
    unfolding x0 by (simp add: cost_def solver_of_def transforms_two)
  have c2': "cost K (solver_of []) x_two = Inr []"
    by (simp add: cost_def solver_of_def transforms_two)
  have "solve K lsq_initial (solver_of []) = build_transforms x_two [0..<2]"
    using c2' by (simp add: solve_def Let_def lsq_initial_def x0) (simp add: solver_of_def)
  then have s2: "solve K lsq_initial (solver_of []) = Inr [pose_id, pose_id]"
    by (simp add: transforms_two)
  have n2: "solve K lsq (solver_of []) \<noteq> Inr [pose_id, pose_x1]"
  proof
    assume a: "solve K lsq (solver_of []) = Inr [pose_id, pose_x1]"
    show False
    proof (cases "lsq (cost K (solver_of [])) (ravel (entities (solver_of []))) (jacobianSparsity (solver_of []))")
      case (Inl e)
      then show False using a by (simp add: solve_def Let_def)
    next
      case (Inr x)
      then have "build_transforms x [0..<ne (solver_of [])] = Inr [pose_id, pose_x1]"
        using a by (simp add: solve_def Let_def)
      then have "\<forall>t\<in>set [pose_id, pose_x1]. translation t = (0, 0, 0)"
        by (rule build_transforms_translation)
      then show False by (simp add: pose_x1_def)
    qed
  qed
  show ?thesis using i c s n i2 c2 s2 n2 by blast
qed

section \<open>Properties of the SparsityBuilder\<close>

lemma length_set_slice: "length (set_slice row lo hi v) = length row"
  by (simp add: set_slice_def)

lemma nth_set_slice:
  "j < length row \<Longrightarrow>
   set_slice row lo hi v ! j = (if lo \<le> j \<and> j < hi then v else row ! j)"
  by (simp add: set_slice_def)

lemma length_sparsity_loop: "length (sparsity_loop i ks rv) = length rv"
  by (induction i ks rv rule: sparsity_loop.induct) simp_all

lemma sparsity_loop_below: "r < i \<Longrightarrow> sparsity_loop i ks rv ! r = rv ! r"
  by (induction i ks rv rule: sparsity_loop.induct) simp_all

lemma sparsity_loop_row:
  "r < length ks \<Longrightarrow> i + length ks \<le> length rv \<Longrightarrow>
   sparsity_loop i ks rv ! (i + r) =
     set_slice (set_slice (rv ! (i + r)) (6 * fst (ks ! r)) (6 * (fst (ks ! r) + 1)) 1)
               (6 * snd (ks ! r)) (6 * (snd (ks ! r) + 1)) 1"
proof (induction i ks rv arbitrary: r rule: sparsity_loop.induct)
  case (1 i rv)
  then show ?case by simp
next
  case (2 i k1 k2 ks rv)
  show ?case
  proof (cases r)
    case 0
    then show ?thesis using "2.prems" by (simp add: sparsity_loop_below)
  next
    case (Suc r')
    then have "r' < length ks" using "2.prems" by simp
    moreover have "Suc i + length ks \<le> length (rv[i := set_slice (set_slice (rv ! i) (6 * k1) (6 * (k1 + 1)) 1) (6 * k2) (6 * (k2 + 1)) 1])"
      using "2.prems" by simp
    ultimately show ?thesis using "2.IH" [of r'] Suc by simp
  qed
qed

lemma sparsity_loop_row_length:
  "\<forall>row\<in>set rv. length row = n \<Longrightarrow> \<forall>row\<in>set (sparsity_loop i ks rv). length row = n"
proof (induction i ks rv rule: sparsity_loop.induct)
  case (1 i rv)
  then show ?case by simp
next
  case (2 i k1 k2 ks rv)
  let ?row = "set_slice (set_slice (rv ! i) (6 * k1) (6 * (k1 + 1)) 1) (6 * k2) (6 * (k2 + 1)) 1"
  have "\<forall>row\<in>set (rv[i := ?row]). length row = n"
  proof (cases "i < length rv")
    case True
    then have "length ?row = n" using "2.prems" by (simp add: length_set_slice)
    then show ?thesis using "2.prems" True by (auto simp add: set_update_memI dest!: set_update_subset_insert [THEN subsetD])
  next
    case False
    then have "rv[i := ?row] = rv" by (simp add: list_update_beyond)
    then show ?thesis using "2.prems" by simp
  qed
  then show ?case using "2.IH" by simp
qed

lemma block_indicator_sum:
  fixes k1 k2 n :: nat
  assumes "k1 < n" "k2 < n"
  shows "sum_list (map (\<lambda>j. if (6 * k1 \<le> j \<and> j < 6 * k1 + 6) \<or> (6 * k2 \<le> j \<and> j < 6 * k2 + 6)
                             then 1 else (0::real)) [0..<6 * n])
         = (if k1 = k2 then 6 else 12)"
proof -
  let ?P = "\<lambda>j. (6 * k1 \<le> j \<and> j < 6 * k1 + 6) \<or> (6 * k2 \<le> j \<and> j < 6 * k2 + 6)"
  have "sum_list (map (\<lambda>j. if ?P j then 1 else (0::real)) [0..<6 * n])
        = (\<Sum>j\<in>{0..<6 * n}. if ?P j then 1 else (0::real))"
    by (simp add: interv_sum_list_conv_sum_set_nat)
  also have "\<dots> = real (card {j \<in> {0..<6 * n}. ?P j})"
    by (simp add: sum.If_cases Int_def)
  also have "{j \<in> {0..<6 * n}. ?P j} = {6 * k1..<6 * k1 + 6} \<union> {6 * k2..<6 * k2 + 6}"
    using assms by auto
  also have "card ({6 * k1..<6 * k1 + 6} \<union> {6 * k2..<6 * k2 + 6}) = (if k1 = k2 then 6 else 12)"
  proof (cases "k1 = k2")
    case True
    then show ?thesis by simp
  next
    case False
    then have "{6 * k1..<6 * k1 + 6} \<inter> {6 * k2..<6 * k2 + 6} = {}" by auto
    then have "card ({6 * k1..<6 * k1 + 6} \<union> {6 * k2..<6 * k2 + 6}) = 6 + 6"
      by (subst card_Un_disjoint) simp_all
    then show ?thesis using False by simp
  qed
  finally show ?thesis by simp
qed

lemma init_fields:
  "init locs cs = Inr s \<Longrightarrow> constraints s = cs \<and> ne s = length locs \<and> nc s = length cs"
  by (auto simp add: init_def split: sum.splits)

lemma jacobianSparsity_row:
  assumes "nc s = length (constraints s)" "i < nc s"
  shows "jacobianSparsity s ! i =
     map (\<lambda>j. if (6 * fst (fst (constraints s ! i)) \<le> j \<and> j < 6 * fst (fst (constraints s ! i)) + 6)
               \<or> (6 * snd (fst (constraints s ! i)) \<le> j \<and> j < 6 * snd (fst (constraints s ! i)) + 6)
             then 1 else 0) [0..<6 * ne s]"
proof -
  have "jacobianSparsity s ! (0 + i) =
     set_slice (set_slice (replicate (nc s) (replicate (6 * ne s) 0) ! (0 + i))
                  (6 * fst (map fst (constraints s) ! i)) (6 * (fst (map fst (constraints s) ! i) + 1)) 1)
               (6 * snd (map fst (constraints s) ! i)) (6 * (snd (map fst (constraints s) ! i) + 1)) 1"
    unfolding jacobianSparsity_def using assms by (intro sparsity_loop_row) simp_all
  then show ?thesis using assms
    by (auto simp add: set_slice_def)
qed

text \<open>
  Claim C7. For a solver constructed from \<open>ne\<close> poses and a constraint mapping of
  size \<open>nc\<close>, the sparsity matrix has \<open>nc\<close> rows of \<open>6 * ne\<close> columns each; the row
  of the constraint at position \<open>i\<close> with pair \<open>(k1, k2)\<close> holds \<open>1\<close> exactly at the
  columns of the blocks \<open>[6 k1, 6 k1 + 6)\<close> and \<open>[6 k2, 6 k2 + 6)\<close> and \<open>0\<close>
  elsewhere; with both indices below \<open>ne\<close> (the invariant of the data model) the row
  sum is \<open>6\<close> when \<open>k1 = k2\<close> and \<open>12\<close> otherwise.
\<close>

theorem jacobianSparsity_pattern:
  assumes "init locs cs = Inr s" and "i < length cs" and "fst (cs ! i) = (k1, k2)"
  shows "length (jacobianSparsity s) = length cs
     \<and> (\<forall>row\<in>set (jacobianSparsity s). length row = 6 * length locs)
     \<and> (\<forall>j<6 * length locs. jacobianSparsity s ! i ! j =
          (if (6 * k1 \<le> j \<and> j < 6 * k1 + 6) \<or> (6 * k2 \<le> j \<and> j < 6 * k2 + 6) then 1 else 0))
     \<and> (k1 < length locs \<and> k2 < length locs \<longrightarrow>
          sum_list (jacobianSparsity s ! i) = (if k1 = k2 then 6 else 12))"
proof -
  have f: "constraints s = cs" "ne s = length locs" "nc s = length cs"
    using init_fields [OF assms(1)] by simp_all
  have len: "length (jacobianSparsity s) = length cs"
    by (simp add: jacobianSparsity_def length_sparsity_loop f)
  have rows: "\<forall>row\<in>set (jacobianSparsity s). length row = 6 * length locs"
    unfolding jacobianSparsity_def
    by (rule sparsity_loop_row_length) (simp add: f)
  have row: "jacobianSparsity s ! i =
     map (\<lambda>j. if (6 * k1 \<le> j \<and> j < 6 * k1 + 6) \<or> (6 * k2 \<le> j \<and> j < 6 * k2 + 6)
             then 1 else 0) [0..<6 * length locs]"
    using jacobianSparsity_row [of s i] assms(2,3) f by simp
  have ent: "\<forall>j<6 * length locs. jacobianSparsity s ! i ! j =
          (if (6 * k1 \<le> j \<and> j < 6 * k1 + 6) \<or> (6 * k2 \<le> j \<and> j < 6 * k2 + 6) then 1 else 0)"
    unfolding row by simp
  have sm: "k1 < length locs \<and> k2 < length locs \<longrightarrow>
          sum_list (jacobianSparsity s ! i) = (if k1 = k2 then 6 else 12)"
    unfolding row using block_indicator_sum [of k1 "length locs" k2] by blast
  show ?thesis using len rows ent sm by blast
qed

text \<open>Claim C7 at two entities and one constraint between them.\<close>

theorem jacobianSparsity_pattern_witness:
  "init [pose0, pose0] [((0, 1), ([], []))] = Inr solver1
   \<and> length (jacobianSparsity solver1) = 1
   \<and> sum_list (jacobianSparsity solver1 ! 0) = 12"
proof -
  have i: "init [pose0, pose0] [((0, 1), ([], []))] = Inr solver1"
    by (simp add: init_def solver1_def pose0_def locToDOF6_def quat_def Let_def)
  show ?thesis
    using i jacobianSparsity_pattern [OF i, of 0 0 1] by simp
qed

section \<open>Auxiliary facts about the ResidualEvaluator\<close>

lemma build_transform_args_six:
  assumes "length l = 6"
  shows "build_transform_args l = Inr (build_transform (l ! 0) (l ! 1) (l ! 2) (l ! 3) (l ! 4) (l ! 5))"
proof -
  obtain a b c d e f where l: "l = [a, b, c, d, e, f]"
    using assms by (auto simp add: eval_nat_numeral length_Suc_conv)
  show ?thesis unfolding l by simp
qed

lemma slice_entity_pose:
  assumes "6 * k + 6 \<le> length x"
  shows "build_transform_args (take 6 (drop (6 * k) x)) = Inr (entity_pose x k)"
proof -
  have "length (take 6 (drop (6 * k) x)) = 6" using assms by simp
  then have "build_transform_args (take 6 (drop (6 * k) x))
     = Inr (build_transform (take 6 (drop (6 * k) x) ! 0) (take 6 (drop (6 * k) x) ! 1)
         (take 6 (drop (6 * k) x) ! 2) (take 6 (drop (6 * k) x) ! 3)
         (take 6 (drop (6 * k) x) ! 4) (take 6 (drop (6 * k) x) ! 5))"
    by (rule build_transform_args_six)
  then show ?thesis using assms by (simp add: entity_pose_def)
qed

lemma build_transforms_map:
  "\<forall>k\<in>set ks. 6 * k + 6 \<le> length x \<Longrightarrow>
   build_transforms x ks = Inr (map (entity_pose x) ks)"
  by (induction ks) (simp_all add: slice_entity_pose)

lemma build_transforms_range:
  assumes "length x = 6 * n"
  shows "build_transforms x [0..<n] = Inr (map (entity_pose x) [0..<n])"
proof (rule build_transforms_map)
  show "\<forall>k\<in>set [0..<n]. 6 * k + 6 \<le> length x" using assms by auto
qed

lemma entity_pose_cong:
  assumes "\<forall>j. 6 * k \<le> j \<and> j < 6 * k + 6 \<longrightarrow> x ! j = y ! j"
  shows "entity_pose x k = entity_pose y k"
  using assms by (simp add: entity_pose_def)

lemma Transformed_XYZ_error_fixed:
  "Transformed_XYZ K m t = Inl e \<Longrightarrow> Transformed_XYZ K m t' = Inl e"
  by (induction K m t rule: Transformed_XYZ.induct) simp_all

lemma pair_term_error_fixed:
  assumes "pair_term K t1 t2 m1 m2 = Inl e"
  shows "pair_term K t1' t2' m1 m2 = Inl e"
proof (cases m1)
  case (Pnt p)
  show ?thesis
  proof (cases "Transformed_XYZ K m2 t2")
    case (Inl e')
    then have "e' = e" using assms Pnt by simp
    then have "Transformed_XYZ K m2 t2' = Inl e"
      using Inl Transformed_XYZ_error_fixed by blast
    then show ?thesis using Pnt by simp
  next
    case (Inr w2)
    then show ?thesis using assms Pnt by simp
  qed
next
  case (Dir d)
  show ?thesis
  proof (cases m2)
    case (Pnt p)
    then show ?thesis using assms Dir by simp
  next
    case d2: (Dir d2)
    then show ?thesis using assms Dir by simp
  next
    case (Other obj)
    then show ?thesis using assms Dir by (cases obj) simp_all
  qed
next
  case (Other obj)
  then show ?thesis using assms by simp
qed

lemma pair_term_same_kind:
  "same_kind m1 m2 \<Longrightarrow> pair_term K t1 t2 m1 m2 = Inr (spec_pair_residual K t1 t2 (m1, m2))"
  by (cases m1; cases m2) (simp_all add: Modulus_def vsub_def euclidean_distance_def)

lemma marker_loop_error_fixed:
  "marker_loop K t1 t2 ps acc = Inl e \<Longrightarrow> marker_loop K t1' t2' ps acc' = Inl e"
proof (induction ps arbitrary: acc acc')
  case Nil
  then show ?case by simp
next
  case (Cons p ps)
  obtain m1 m2 where p: "p = (m1, m2)" by (cases p)
  show ?case
  proof (cases "pair_term K t1 t2 m1 m2")
    case (Inl e')
    then have "e' = e" using Cons.prems p by simp
    then have "pair_term K t1' t2' m1 m2 = Inl e" using Inl pair_term_error_fixed by blast
    then show ?thesis using p by simp
  next
    case (Inr d)
    have rest: "marker_loop K t1 t2 ps (acc + d) = Inl e" using Cons.prems p Inr by simp
    show ?thesis
    proof (cases "pair_term K t1' t2' m1 m2")
      case (Inl e')
      then have "pair_term K t1 t2 m1 m2 = Inl e'" by (rule pair_term_error_fixed)
      then show ?thesis using Inr by simp
    next
      case d': (Inr d')
      show ?thesis using Cons.IH [OF rest, of "acc' + d'"] d' p by simp
    qed
  qed
qed

lemma marker_loop_sum:
  "\<forall>(m1, m2)\<in>set ps. same_kind m1 m2 \<Longrightarrow>
   marker_loop K t1 t2 ps acc = Inr (acc + sum_list (map (spec_pair_residual K t1 t2) ps))"
proof (induction ps arbitrary: acc)
  case Nil
  then show ?case by simp
next
  case (Cons p ps)
  obtain m1 m2 where p: "p = (m1, m2)" by (cases p)
  have "same_kind m1 m2" using Cons.prems p by simp
  then have "pair_term K t1 t2 m1 m2 = Inr (spec_pair_residual K t1 t2 (m1, m2))"
    by (rule pair_term_same_kind)
  moreover have "\<forall>(m1, m2)\<in>set ps. same_kind m1 m2" using Cons.prems by simp
  ultimately show ?case using Cons.IH p by (simp add: add.assoc)
qed

lemma marker_loop_first_other:
  "\<forall>(m1, m2)\<in>set ps1. same_kind m1 m2 \<Longrightarrow>
   marker_loop K t1 t2 (ps1 @ (Other obj, m2) # ps2) acc = Inl NotImplementedError"
proof (induction ps1 arbitrary: acc)
  case Nil
  then show ?case by simp
next
  case (Cons p ps1)
  obtain a b where p: "p = (a, b)" by (cases p)
  have "same_kind a b" using Cons.prems p by simp
  then have "pair_term K t1 t2 a b = Inr (spec_pair_residual K t1 t2 (a, b))"
    by (rule pair_term_same_kind)
  moreover have "\<forall>(m1, m2)\<in>set ps1. same_kind m1 m2" using Cons.prems by simp
  ultimately show ?case using Cons.IH p by simp
qed

lemma constraint_loop_result:
  "constraint_loop K ts i cs rv = Inr out \<Longrightarrow> i + length cs \<le> length rv \<Longrightarrow>
   length out = length rv
   \<and> (\<forall>r<i. out ! r = rv ! r)
   \<and> (\<forall>r<length cs.
         fst (fst (cs ! r)) < length ts \<and> snd (fst (cs ! r)) < length ts
         \<and> marker_loop K (ts ! fst (fst (cs ! r))) (ts ! snd (fst (cs ! r)))
              (zip (fst (snd (cs ! r))) (snd (snd (cs ! r)))) (rv ! (i + r))
            = Inr (out ! (i + r)))"
proof (induction K ts i cs rv rule: constraint_loop.induct)
  case (1 K ts i rv)
  then show ?case by simp
next
  case (2 K ts i k1 k2 ms1 ms2 cs rv)
  have k: "k1 < length ts" "k2 < length ts"
    using "2.prems"(1) by (auto split: if_splits)
  obtain v where v: "marker_loop K (ts ! k1) (ts ! k2) (zip ms1 ms2) (rv ! i) = Inr v"
    using "2.prems"(1) k by (cases "marker_loop K (ts ! k1) (ts ! k2) (zip ms1 ms2) (rv ! i)") auto
  have rest: "constraint_loop K ts (Suc i) cs (rv[i := v]) = Inr out"
    using "2.prems"(1) k v by simp
  have bound: "Suc i + length cs \<le> length (rv[i := v])" using "2.prems"(2) by simp
  have ih: "length out = length (rv[i := v])
     \<and> (\<forall>r<Suc i. out ! r = rv[i := v] ! r)
     \<and> (\<forall>r<length cs.
         fst (fst (cs ! r)) < length ts \<and> snd (fst (cs ! r)) < length ts
         \<and> marker_loop K (ts ! fst (fst (cs ! r))) (ts ! snd (fst (cs ! r)))
              (zip (fst (snd (cs ! r))) (snd (snd (cs ! r)))) (rv[i := v] ! (Suc i + r))
            = Inr (out ! (Suc i + r)))"
    using "2.IH" [OF _ _ v rest bound] k by simp
  have i_lt: "i < length rv" using "2.prems"(2) by simp
  have out_i: "out ! i = v" using ih i_lt by simp
  have len: "length out = length rv" using ih by simp
  have below: "\<forall>r<i. out ! r = rv ! r" using ih by simp
  have rows: "\<forall>r<length (((k1, k2), (ms1, ms2)) # cs).
         fst (fst ((((k1, k2), (ms1, ms2)) # cs) ! r)) < length ts
         \<and> snd (fst ((((k1, k2), (ms1, ms2)) # cs) ! r)) < length ts
         \<and> marker_loop K (ts ! fst (fst ((((k1, k2), (ms1, ms2)) # cs) ! r)))
              (ts ! snd (fst ((((k1, k2), (ms1, ms2)) # cs) ! r)))
              (zip (fst (snd ((((k1, k2), (ms1, ms2)) # cs) ! r)))
                   (snd (snd ((((k1, k2), (ms1, ms2)) # cs) ! r)))) (rv ! (i + r))
            = Inr (out ! (i + r))"
  proof (intro allI impI)
    fix r assume r: "r < length (((k1, k2), (ms1, ms2)) # cs)"
    show "fst (fst ((((k1, k2), (ms1, ms2)) # cs) ! r)) < length ts
         \<and> snd (fst ((((k1, k2), (ms1, ms2)) # cs) ! r)) < length ts
         \<and> marker_loop K (ts ! fst (fst ((((k1, k2), (ms1, ms2)) # cs) ! r)))
              (ts ! snd (fst ((((k1, k2), (ms1, ms2)) # cs) ! r)))
              (zip (fst (snd ((((k1, k2), (ms1, ms2)) # cs) ! r)))
                   (snd (snd ((((k1, k2), (ms1, ms2)) # cs) ! r)))) (rv ! (i + r))
            = Inr (out ! (i + r))"
    proof (cases r)
      case 0
      then show ?thesis using k v out_i by simp
    next
      case (Suc r')
      then have "r' < length cs" using r by simp
      then show ?thesis using ih Suc by simp
    qed
  qed
  show ?case using len below rows by blast
qed

lemma constraint_loop_returns:
  "\<forall>c\<in>set cs. well_kinded (length ts) c \<Longrightarrow> \<exists>out. constraint_loop K ts i cs rv = Inr out"
proof (induction K ts i cs rv rule: constraint_loop.induct)
  case (1 K ts i rv)
  then show ?case by simp
next
  case (2 K ts i k1 k2 ms1 ms2 cs rv)
  have k: "k1 < length ts" "k2 < length ts" using "2.prems" by simp_all
  have "\<forall>(m1, m2)\<in>set (zip ms1 ms2). same_kind m1 m2" using "2.prems" by simp
  then have v: "marker_loop K (ts ! k1) (ts ! k2) (zip ms1 ms2) (rv ! i)
     = Inr (rv ! i + sum_list (map (spec_pair_residual K (ts ! k1) (ts ! k2)) (zip ms1 ms2)))"
    by (rule marker_loop_sum)
  have "\<forall>c\<in>set cs. well_kinded (length ts) c" using "2.prems" by simp
  then show ?case using "2.IH" [OF _ _ v] k v by simp
qed

lemma constraint_loop_error_fixed:
  "length ts = length ts' \<Longrightarrow> constraint_loop K ts i cs rv = Inl e \<Longrightarrow>
   constraint_loop K ts' i cs rv' = Inl e"
proof (induction K ts i cs rv arbitrary: rv' rule: constraint_loop.induct)
  case (1 K ts i rv)
  then show ?case by simp
next
  case (2 K ts i k1 k2 ms1 ms2 cs rv)
  show ?case
  proof (cases "k1 < length ts \<and> k2 < length ts")
    case False
    then show ?thesis using "2.prems" by (auto split: if_splits)
  next
    case True
    then have k: "k1 < length ts" "k2 < length ts" by simp_all
    show ?thesis
    proof (cases "marker_loop K (ts ! k1) (ts ! k2) (zip ms1 ms2) (rv ! i)")
      case (Inl e')
      then have "e' = e" using "2.prems"(2) k by simp
      then have "marker_loop K (ts' ! k1) (ts' ! k2) (zip ms1 ms2) (rv' ! i) = Inl e"
        using Inl marker_loop_error_fixed by blast
      then show ?thesis using k "2.prems"(1) by simp
    next
      case (Inr v)
      have rest: "constraint_loop K ts (Suc i) cs (rv[i := v]) = Inl e"
        using "2.prems"(2) k Inr by simp
      show ?thesis
      proof (cases "marker_loop K (ts' ! k1) (ts' ! k2) (zip ms1 ms2) (rv' ! i)")
        case (Inl e')
        then have "marker_loop K (ts ! k1) (ts ! k2) (zip ms1 ms2) (rv ! i) = Inl e'"
          by (rule marker_loop_error_fixed)
        then show ?thesis using Inr by simp
      next
        case v': (Inr v')
        have "constraint_loop K ts' (Suc i) cs (rv'[i := v']) = Inl e"
          using "2.IH" [OF _ _ Inr "2.prems"(1) rest] k by simp
        then show ?thesis using k v' "2.prems"(1) by simp
      qed
    qed
  qed
qed

lemma constraint_loop_first_other:
  assumes "\<forall>c\<in>set cs1. well_kinded (length ts) c" and "k1 < length ts" and "k2 < length ts"
    and "zip ms1 ms2 = ps1 @ (Other obj, m2) # ps2" and "\<forall>(a, b)\<in>set ps1. same_kind a b"
  shows "constraint_loop K ts i (cs1 @ ((k1, k2), (ms1, ms2)) # cs2) rv = Inl NotImplementedError"
  using assms(1)
proof (induction cs1 arbitrary: i rv)
  case Nil
  have "marker_loop K (ts ! k1) (ts ! k2) (zip ms1 ms2) (rv ! i) = Inl NotImplementedError"
    unfolding assms(4) using assms(5) by (rule marker_loop_first_other)
  then show ?case using assms(2,3) by simp
next
  case (Cons c cs1)
  obtain j1 j2 a1 a2 where c: "c = ((j1, j2), (a1, a2))" by (cases c) auto
  have k: "j1 < length ts" "j2 < length ts" using Cons.prems c by simp_all
  have "\<forall>(m1, m2)\<in>set (zip a1 a2). same_kind m1 m2" using Cons.prems c by simp
  then have v: "marker_loop K (ts ! j1) (ts ! j2) (zip a1 a2) (rv ! i)
     = Inr (rv ! i + sum_list (map (spec_pair_residual K (ts ! j1) (ts ! j2)) (zip a1 a2)))"
    by (rule marker_loop_sum)
  have "\<forall>c\<in>set cs1. well_kinded (length ts) c" using Cons.prems by simp
  then show ?case using Cons.IH c k v by simp
qed

lemma zip_take_min:
  "zip (take (min (length xs) (length ys)) xs) (take (min (length xs) (length ys)) ys) = zip xs ys"
proof -
  have "zip (take (min (length xs) (length ys)) xs) (take (min (length xs) (length ys)) ys)
        = take (length (zip xs ys)) (zip xs ys)"
    by (simp add: take_zip)
  then show ?thesis by simp
qed

lemma constraint_loop_truncate:
  "constraint_loop K ts i
     (cs1 @ ((k1, k2), (take (min (length ms1) (length ms2)) ms1,
                        take (min (length ms1) (length ms2)) ms2)) # cs2) rv
   = constraint_loop K ts i (cs1 @ ((k1, k2), (ms1, ms2)) # cs2) rv"
proof (induction cs1 arbitrary: i rv)
  case Nil
  show ?case by (simp add: zip_take_min)
next
  case (Cons c cs1)
  obtain j1 j2 a1 a2 where c: "c = ((j1, j2), (a1, a2))" by (cases c) auto
  show ?case using Cons.IH c by (simp split: sum.splits)
qed

section \<open>Properties of the ResidualEvaluator\<close>

lemma cost_as_loop:
  assumes "length x = 6 * ne s"
  shows "cost K s x =
     constraint_loop K (map (entity_pose x) [0..<ne s]) 0 (constraints s) (replicate (nc s) 0)"
  using build_transforms_range [OF assms] by (simp add: cost_def)

lemma euclidean_distance_zero_iff:
  "0 \<le> euclidean_distance u v \<and> (euclidean_distance u v = 0 \<longleftrightarrow> u = v)"
proof -
  have "(fst u - fst v)\<^sup>2 + (fst (snd u) - fst (snd v))\<^sup>2 + (snd (snd u) - snd (snd v))\<^sup>2 = 0
        \<longleftrightarrow> fst u = fst v \<and> fst (snd u) = fst (snd v) \<and> snd (snd u) = snd (snd v)"
    by (simp add: sum_power2_eq_zero_iff add_nonneg_eq_0_iff)
  then show ?thesis by (auto simp add: euclidean_distance_def prod_eq_iff)
qed

lemma cost_row:
  assumes f: "constraints s = cs" "nc s = length cs"
    and x: "length x = 6 * ne s"
    and c: "cost K s x = Inr rv"
    and i: "i < length cs"
  shows "fst (fst (cs ! i)) < ne s \<and> snd (fst (cs ! i)) < ne s
     \<and> marker_loop K (entity_pose x (fst (fst (cs ! i)))) (entity_pose x (snd (fst (cs ! i))))
          (zip (fst (snd (cs ! i))) (snd (snd (cs ! i)))) 0 = Inr (rv ! i)
     \<and> length rv = length cs"
proof -
  let ?ts = "map (entity_pose x) [0..<ne s]"
  have loop: "constraint_loop K ?ts 0 cs (replicate (length cs) 0) = Inr rv"
    using c cost_as_loop [OF x, of K] f by simp
  have r: "length rv = length (replicate (length cs) (0::real))
   \<and> (\<forall>r<0. rv ! r = replicate (length cs) (0::real) ! r)
   \<and> (\<forall>r<length cs.
         fst (fst (cs ! r)) < length ?ts \<and> snd (fst (cs ! r)) < length ?ts
         \<and> marker_loop K (?ts ! fst (fst (cs ! r))) (?ts ! snd (fst (cs ! r)))
              (zip (fst (snd (cs ! r))) (snd (snd (cs ! r)))) (replicate (length cs) 0 ! (0 + r))
            = Inr (rv ! (0 + r)))"
    by (rule constraint_loop_result [OF loop]) simp
  then have "fst (fst (cs ! i)) < length ?ts \<and> snd (fst (cs ! i)) < length ?ts
         \<and> marker_loop K (?ts ! fst (fst (cs ! i))) (?ts ! snd (fst (cs ! i)))
              (zip (fst (snd (cs ! i))) (snd (snd (cs ! i)))) (replicate (length cs) 0 ! (0 + i))
            = Inr (rv ! (0 + i))"
    using i by blast
  then have inst: "fst (fst (cs ! i)) < length ?ts \<and> snd (fst (cs ! i)) < length ?ts
         \<and> marker_loop K (?ts ! fst (fst (cs ! i))) (?ts ! snd (fst (cs ! i)))
              (zip (fst (snd (cs ! i))) (snd (snd (cs ! i)))) (replicate (length cs) 0 ! (0 + i))
            = Inr (rv ! (0 + i))" .
  have k1: "fst (fst (cs ! i)) < ne s" using inst by simp
  have k2: "snd (fst (cs ! i)) < ne s" using inst by simp
  have m: "marker_loop K (?ts ! fst (fst (cs ! i))) (?ts ! snd (fst (cs ! i)))
              (zip (fst (snd (cs ! i))) (snd (snd (cs ! i)))) (replicate (length cs) 0 ! (0 + i))
            = Inr (rv ! (0 + i))" using inst by blast
  have t1: "?ts ! fst (fst (cs ! i)) = entity_pose x (fst (fst (cs ! i)))" using k1 by simp
  have t2: "?ts ! snd (fst (cs ! i)) = entity_pose x (snd (fst (cs ! i)))" using k2 by simp
  have z: "replicate (length cs) (0::real) ! i = 0" using i by simp
  have "length rv = length cs" using r by simp
  then show ?thesis using k1 k2 m z unfolding t1 t2 by simp
qed

text \<open>
  Claim C2. For a parameter vector of length \<open>6 * ne\<close> on which the cost function
  returns, and a constraint at row \<open>i\<close> with pair \<open>(k1, k2)\<close> and marker sequences of
  equal length whose pairs share their kind, the \<open>i\<close>-th residual is the sum over the
  marker pairs of the Euclidean distance of the two transformed points (Point pairs)
  and of the raw dot product of the two transformed directions (Direction pairs), the
  transforms being those built from the blocks \<open>k1\<close> and \<open>k2\<close> of the vector. The term
  the code adds for a Point pair is that distance: it is not negative, and it is zero
  exactly when the two transformed points coincide. The term for a Direction pair is
  the dot product itself.
\<close>

theorem cost_row_is_sum_of_pair_terms:
  assumes "init locs cs = Inr s" and "length x = 6 * length locs"
    and "cost K s x = Inr rv"
    and "i < length cs" and "cs ! i = ((k1, k2), (ms1, ms2))"
    and "length ms1 = length ms2"
    and "\<forall>(m1, m2)\<in>set (zip ms1 ms2). same_kind m1 m2"
  shows "rv ! i = sum_list (map (spec_pair_residual K (entity_pose x k1) (entity_pose x k2))
                        (zip ms1 ms2))
     \<and> pair_term K t1 t2 (Pnt p1) (Pnt p2)
         = Inr (euclidean_distance (pnt_transformed K t1 p1) (pnt_transformed K t2 p2))
     \<and> 0 \<le> euclidean_distance (pnt_transformed K t1 p1) (pnt_transformed K t2 p2)
     \<and> (euclidean_distance (pnt_transformed K t1 p1) (pnt_transformed K t2 p2) = 0
          \<longleftrightarrow> pnt_transformed K t1 p1 = pnt_transformed K t2 p2)
     \<and> pair_term K t1 t2 (Dir d1) (Dir d2)
         = Inr (Dot (dir_transformed K t1 d1) (dir_transformed K t2 d2))"
proof -
  have f: "constraints s = cs" "ne s = length locs" "nc s = length cs"
    using init_fields [OF assms(1)] by simp_all
  have x: "length x = 6 * ne s" using assms(2) f by simp
  have "marker_loop K (entity_pose x k1) (entity_pose x k2) (zip ms1 ms2) 0 = Inr (rv ! i)"
    using cost_row [OF f(1) f(3) x assms(3) assms(4)] assms(5) by simp
  moreover have "marker_loop K (entity_pose x k1) (entity_pose x k2) (zip ms1 ms2) 0
     = Inr (0 + sum_list (map (spec_pair_residual K (entity_pose x k1) (entity_pose x k2))
                        (zip ms1 ms2)))"
    using assms(7) by (rule marker_loop_sum)
  ultimately have row: "rv ! i = sum_list (map (spec_pair_residual K (entity_pose x k1) (entity_pose x k2))
                        (zip ms1 ms2))" by simp
  have pt: "pair_term K t1 t2 (Pnt p1) (Pnt p2)
         = Inr (euclidean_distance (pnt_transformed K t1 p1) (pnt_transformed K t2 p2))"
    by (simp add: Modulus_def vsub_def euclidean_distance_def)
  have dr: "pair_term K t1 t2 (Dir d1) (Dir d2)
         = Inr (Dot (dir_transformed K t1 d1) (dir_transformed K t2 d2))" by simp
  show ?thesis
    using row pt dr euclidean_distance_zero_iff [of "pnt_transformed K t1 p1" "pnt_transformed K t2 p2"]
    by blast
qed

text \<open>
  Claim C8. If two parameter vectors of length \<open>6 * ne\<close> agree on every column that
  row \<open>i\<close> of the sparsity matrix marks with \<open>1\<close>, the cost function has the same
  outcome at row \<open>i\<close> on both: the same exception, or the same \<open>i\<close>-th residual.
\<close>

theorem residual_row_reads_marked_columns_only:
  assumes "init locs cs = Inr s"
    and "length x = 6 * length locs" and "length y = 6 * length locs"
    and "i < length cs"
    and "\<forall>j<6 * length locs. jacobianSparsity s ! i ! j = 1 \<longrightarrow> x ! j = y ! j"
  shows "map_sum id (\<lambda>rv. rv ! i) (cost K s x) = map_sum id (\<lambda>rv. rv ! i) (cost K s y)"
proof -
  have f: "constraints s = cs" "ne s = length locs" "nc s = length cs"
    using init_fields [OF assms(1)] by simp_all
  have x: "length x = 6 * ne s" and y: "length y = 6 * ne s" using assms(2,3) f by simp_all
  let ?tx = "map (entity_pose x) [0..<ne s]"
  let ?ty = "map (entity_pose y) [0..<ne s]"
  let ?z = "replicate (nc s) (0::real)"
  have cx: "cost K s x = constraint_loop K ?tx 0 cs ?z" using cost_as_loop [OF x] f by simp
  have cy: "cost K s y = constraint_loop K ?ty 0 cs ?z" using cost_as_loop [OF y] f by simp
  have len: "length ?tx = length ?ty" by simp
  show ?thesis
  proof (cases "cost K s x")
    case (Inl e)
    then have "cost K s y = Inl e"
      unfolding cx cy using constraint_loop_error_fixed [OF len] by blast
    then show ?thesis using Inl by simp
  next
    case (Inr rx)
    show ?thesis
    proof (cases "cost K s y")
      case (Inl e)
      then have "cost K s x = Inl e"
        unfolding cx cy using constraint_loop_error_fixed [OF len [symmetric]] by blast
      then show ?thesis using Inr by simp
    next
      case ry: (Inr ry)
      let ?k1 = "fst (fst (cs ! i))" and ?k2 = "snd (fst (cs ! i))"
      let ?ps = "zip (fst (snd (cs ! i))) (snd (snd (cs ! i)))"
      have rx: "?k1 < ne s \<and> ?k2 < ne s
          \<and> marker_loop K (entity_pose x ?k1) (entity_pose x ?k2) ?ps 0 = Inr (rx ! i)
          \<and> length rx = length cs"
        by (rule cost_row [OF f(1) f(3) x Inr assms(4)])
      have ry': "?k1 < ne s \<and> ?k2 < ne s
          \<and> marker_loop K (entity_pose y ?k1) (entity_pose y ?k2) ?ps 0 = Inr (ry ! i)
          \<and> length ry = length cs"
        by (rule cost_row [OF f(1) f(3) y ry assms(4)])
      have row: "jacobianSparsity s ! i =
         map (\<lambda>j. if (6 * ?k1 \<le> j \<and> j < 6 * ?k1 + 6) \<or> (6 * ?k2 \<le> j \<and> j < 6 * ?k2 + 6)
             then 1 else 0) [0..<6 * ne s]"
        using jacobianSparsity_row [of s i] assms(4) f by simp
      have agree: "x ! j = y ! j" if k: "k = ?k1 \<or> k = ?k2" and j: "6 * k \<le> j \<and> j < 6 * k + 6"
        for k j
      proof -
        have "k < ne s" using k rx by auto
        then have jn: "j < 6 * ne s" using j by simp
        then have "jacobianSparsity s ! i ! j = 1" unfolding row using k j by auto
        then show "x ! j = y ! j" using assms(5) jn f by simp
      qed
      have a1: "\<forall>j. 6 * ?k1 \<le> j \<and> j < 6 * ?k1 + 6 \<longrightarrow> x ! j = y ! j"
        using agree [of ?k1] by blast
      have a2: "\<forall>j. 6 * ?k2 \<le> j \<and> j < 6 * ?k2 + 6 \<longrightarrow> x ! j = y ! j"
        using agree [of ?k2] by blast
      have e1: "entity_pose x ?k1 = entity_pose y ?k1" using a1 by (rule entity_pose_cong)
      have e2: "entity_pose x ?k2 = entity_pose y ?k2" using a2 by (rule entity_pose_cong)
      have "rx ! i = ry ! i" using rx ry' e1 e2 by simp
      then show ?thesis using Inr ry by simp
    qed
  qed
qed

section \<open>Evaluation of the examples\<close>

lemma std_kernel_pose_id:
  "dir_transformed std_kernel pose_id (a, b, c) = (a, b, c)"
  "pnt_transformed std_kernel pose_id (a, b, c) = (a, b, c)"
  by (simp_all add: std_kernel_def rotate_def pose_id_def quat_def SquareNorm_def Let_def)

lemma cost_mixed: "cost std_kernel (solver_of cs_mixed) x_two = Inr [0]"
  by (simp add: cost_def solver_of_def transforms_two cs_mixed_def
      std_kernel_pose_id Modulus_def vsub_def Dot_def)

text \<open>
  Claim C2 at two entities, whose blocks both build the identity pose, with one Point
  pair (distance \<open>0\<close>) and one Direction pair (dot product \<open>0\<close>).
\<close>

theorem cost_row_is_sum_of_pair_terms_witness:
  "init [pose_id, pose_x1] cs_mixed = Inr (solver_of cs_mixed)
   \<and> cost std_kernel (solver_of cs_mixed) x_two = Inr [0]
   \<and> [0] ! 0 = sum_list (map (spec_pair_residual std_kernel (entity_pose x_two 0) (entity_pose x_two 1))
                        (zip [Pnt (0, 0, 0), Dir (1, 0, 0)] [Pnt (0, 0, 0), Dir (0, 1, 0)]))"
proof -
  have h1: "init [pose_id, pose_x1] cs_mixed = Inr (solver_of cs_mixed)" by (rule init_two)
  have h2: "length x_two = 6 * length [pose_id, pose_x1]" by (simp add: x_two_def)
  have h3: "cost std_kernel (solver_of cs_mixed) x_two = Inr [0]" by (rule cost_mixed)
  have h4: "0 < length cs_mixed" by (simp add: cs_mixed_def)
  have h5: "cs_mixed ! 0 = ((0, 1), ([Pnt (0, 0, 0), Dir (1, 0, 0)], [Pnt (0, 0, 0), Dir (0, 1, 0)]))"
    by (simp add: cs_mixed_def)
  have h6: "length [Pnt (0, 0, 0), Dir (1, 0, 0)] = length [Pnt (0, 0, 0), Dir (0, 1, 0)]" by simp
  have h7: "\<forall>(m1, m2)\<in>set (zip [Pnt (0, 0, 0), Dir (1, 0, 0)] [Pnt (0, 0, 0), Dir (0, 1, 0)]).
              same_kind m1 m2" by simp
  show ?thesis
    using h1 h3 cost_row_is_sum_of_pair_terms [OF h1 h2 h3 h4 h5 h6 h7] by blast
qed

section \<open>Unequal sequences and marker kinds\<close>

text \<open>
  Claim C8 at a constraint of entity \<open>0\<close> with itself and two vectors that differ in
  the block of entity \<open>1\<close>.
\<close>

theorem residual_row_reads_marked_columns_only_witness:
  "init [pose_id, pose_x1] cs_self = Inr (solver_of cs_self)
   \<and> x_two \<noteq> y_two
   \<and> map_sum id (\<lambda>rv. rv ! 0) (cost std_kernel (solver_of cs_self) x_two)
     = map_sum id (\<lambda>rv. rv ! 0) (cost std_kernel (solver_of cs_self) y_two)"
proof -
  have h1: "init [pose_id, pose_x1] cs_self = Inr (solver_of cs_self)" by (rule init_two)
  have h2: "length x_two = 6 * length [pose_id, pose_x1]" by (simp add: x_two_def)
  have h3: "length y_two = 6 * length [pose_id, pose_x1]" by (simp add: y_two_def)
  have h4: "0 < length cs_self" by (simp add: cs_self_def)
  have row: "jacobianSparsity (solver_of cs_self) ! 0 =
     map (\<lambda>j. if (6 * 0 \<le> j \<and> j < 6 * 0 + 6) \<or> (6 * 0 \<le> j \<and> j < 6 * 0 + 6)
             then 1 else 0) [0..<6 * 2]"
    using jacobianSparsity_row [of "solver_of cs_self" 0]
    by (simp add: solver_of_def cs_self_def)
  have pre: "take 6 x_two = take 6 y_two" by (simp add: x_two_def y_two_def)
  have h5: "\<forall>j<6 * length [pose_id, pose_x1].
              jacobianSparsity (solver_of cs_self) ! 0 ! j = 1 \<longrightarrow> x_two ! j = y_two ! j"
  proof (intro allI impI)
    fix j assume j: "j < 6 * length [pose_id, pose_x1]"
      and one: "jacobianSparsity (solver_of cs_self) ! 0 ! j = 1"
    have "j < 6"
    proof (rule ccontr)
      assume "\<not> j < 6"
      then have "jacobianSparsity (solver_of cs_self) ! 0 ! j = 0"
        unfolding row using j by simp
      then show False using one by simp
    qed
    then have "x_two ! j = take 6 x_two ! j" "y_two ! j = take 6 y_two ! j" by simp_all
    then show "x_two ! j = y_two ! j" using pre by simp
  qed
  have ne: "x_two \<noteq> y_two" by (simp add: x_two_def y_two_def)
  show ?thesis
    using h1 ne residual_row_reads_marked_columns_only [OF h1 h2 h3 h4 h5, of std_kernel]
    by blast
qed

lemma decode_all_length: "decode_all locs = Inr ds \<Longrightarrow> length ds = length locs"
  by (induction locs arbitrary: ds) (auto split: sum.splits)

lemma length_ravel: "length (ravel ds) = 6 * length ds"
  by (induction ds rule: ravel.induct) simp_all

lemma init_x0_length: "init locs cs = Inr s \<Longrightarrow> length (ravel (entities s)) = 6 * length locs"
  by (auto simp add: init_def length_ravel decode_all_length split: sum.splits)

text \<open>
  Claim C9. For a constraint with marker sequences \<open>ms1\<close> and \<open>ms2\<close> of any lengths,
  \<open>zip\<close> yields \<open>min (len ms1) (len ms2)\<close> pairs, and the cost function has the same
  outcome as on the mapping in which both sequences are cut to that length: the excess
  markers are ignored. When moreover the vector has length \<open>6 * ne\<close> and every
  constraint has its indices below \<open>ne\<close> and pairs of one kind, the cost function
  returns, and the residual of the constraint is the sum over the pairs of the two
  cut sequences.
\<close>

theorem unequal_marker_sequences_truncated:
  assumes "init locs (cs1 @ ((k1, k2), (ms1, ms2)) # cs2) = Inr s"
  shows "length (zip ms1 ms2) = min (length ms1) (length ms2)
     \<and> cost K s x
       = cost K (s\<lparr>constraints := cs1 @ ((k1, k2), (take (min (length ms1) (length ms2)) ms1,
                                                take (min (length ms1) (length ms2)) ms2)) # cs2\<rparr>) x
     \<and> (length x = 6 * length locs
          \<and> (\<forall>c\<in>set (cs1 @ ((k1, k2), (ms1, ms2)) # cs2). well_kinded (length locs) c) \<longrightarrow>
        (\<exists>rv. cost K s x = Inr rv
           \<and> rv ! length cs1
             = sum_list (map (spec_pair_residual K (entity_pose x k1) (entity_pose x k2))
                 (zip (take (min (length ms1) (length ms2)) ms1)
                      (take (min (length ms1) (length ms2)) ms2)))))"
proof -
  let ?cs = "cs1 @ ((k1, k2), (ms1, ms2)) # cs2"
  have f: "constraints s = ?cs" "ne s = length locs" "nc s = length ?cs"
    using init_fields [OF assms] by simp_all
  have a: "length (zip ms1 ms2) = min (length ms1) (length ms2)" by simp
  have b: "cost K s x
       = cost K (s\<lparr>constraints := cs1 @ ((k1, k2), (take (min (length ms1) (length ms2)) ms1,
                                                take (min (length ms1) (length ms2)) ms2)) # cs2\<rparr>) x"
    by (simp add: cost_def f(1) constraint_loop_truncate split: sum.splits)
  have c: "\<exists>rv. cost K s x = Inr rv
           \<and> rv ! length cs1
             = sum_list (map (spec_pair_residual K (entity_pose x k1) (entity_pose x k2))
                 (zip (take (min (length ms1) (length ms2)) ms1)
                      (take (min (length ms1) (length ms2)) ms2)))"
    if x: "length x = 6 * length locs" and wk: "\<forall>c\<in>set ?cs. well_kinded (length locs) c"
  proof -
    have x': "length x = 6 * ne s" using x f by simp
    let ?ts = "map (entity_pose x) [0..<ne s]"
    have "\<forall>c\<in>set ?cs. well_kinded (length ?ts) c" using wk f by simp
    then obtain rv where "constraint_loop K ?ts 0 ?cs (replicate (nc s) 0) = Inr rv"
      using constraint_loop_returns by blast
    then have rv: "cost K s x = Inr rv" using cost_as_loop [OF x', of K] f by simp
    have i: "length cs1 < length ?cs" by simp
    have "marker_loop K (entity_pose x k1) (entity_pose x k2) (zip ms1 ms2) 0
            = Inr (rv ! length cs1)"
      using cost_row [OF f(1) f(3) x' rv i] by simp
    moreover have "\<forall>(m1, m2)\<in>set (zip ms1 ms2). same_kind m1 m2" using wk by simp
    then have "marker_loop K (entity_pose x k1) (entity_pose x k2) (zip ms1 ms2) 0
       = Inr (0 + sum_list (map (spec_pair_residual K (entity_pose x k1) (entity_pose x k2))
                  (zip ms1 ms2)))"
      by (rule marker_loop_sum)
    ultimately have "rv ! length cs1
       = sum_list (map (spec_pair_residual K (entity_pose x k1) (entity_pose x k2)) (zip ms1 ms2))"
      by simp
    then show ?thesis using rv by (simp add: zip_take_min)
  qed
  show ?thesis using a b c by blast
qed

text \<open>Claim C9 at sequences of lengths two and one.\<close>

theorem unequal_marker_sequences_truncated_witness:
  "length [Pnt (0, 0, 0), Pnt (5, 5, 5)] \<noteq> length [Pnt (0, 0, 0)]
   \<and> cost std_kernel (solver_of cs_unequal) x_two
     = cost std_kernel (solver_of [((0, 1), ([Pnt (0, 0, 0)], [Pnt (0, 0, 0)]))]) x_two
   \<and> (\<exists>rv. cost std_kernel (solver_of cs_unequal) x_two = Inr rv
        \<and> rv ! 0 = sum_list (map (spec_pair_residual std_kernel (entity_pose x_two 0) (entity_pose x_two 1))
                       [(Pnt (0, 0, 0), Pnt (0, 0, 0))]))"
proof -
  let ?ms1 = "[Pnt (0, 0, 0), Pnt (5, 5, 5)]" and ?ms2 = "[Pnt (0, 0, 0)]"
  have h1: "init [pose_id, pose_x1] ([] @ ((0, 1), (?ms1, ?ms2)) # [])
            = Inr (solver_of cs_unequal)"
    using init_two [of cs_unequal] by (simp add: cs_unequal_def)
  have wk: "length x_two = 6 * length [pose_id, pose_x1]
     \<and> (\<forall>c\<in>set ([] @ ((0, 1), (?ms1, ?ms2)) # []). well_kinded (length [pose_id, pose_x1]) c)"
    by (simp add: x_two_def)
  note t = unequal_marker_sequences_truncated
    [of "[pose_id, pose_x1]" "[]" 0 1 ?ms1 ?ms2 "[]" "solver_of cs_unequal" std_kernel x_two, OF h1]
  from t have "cost std_kernel (solver_of cs_unequal) x_two
       = cost std_kernel ((solver_of cs_unequal)\<lparr>constraints := [] @ ((0, 1),
            (take (min (length ?ms1) (length ?ms2)) ?ms1,
             take (min (length ?ms1) (length ?ms2)) ?ms2)) # []\<rparr>) x_two"
    by blast
  then have e: "cost std_kernel (solver_of cs_unequal) x_two
     = cost std_kernel (solver_of [((0, 1), ([Pnt (0, 0, 0)], [Pnt (0, 0, 0)]))]) x_two"
    by (simp add: solver_of_def cs_unequal_def)
  from t wk have "\<exists>rv. cost std_kernel (solver_of cs_unequal) x_two = Inr rv
           \<and> rv ! length ([] :: constraint_map)
             = sum_list (map (spec_pair_residual std_kernel (entity_pose x_two 0) (entity_pose x_two 1))
                 (zip (take (min (length ?ms1) (length ?ms2)) ?ms1)
                      (take (min (length ?ms1) (length ?ms2)) ?ms2)))"
    by blast
  then have c: "\<exists>rv. cost std_kernel (solver_of cs_unequal) x_two = Inr rv
        \<and> rv ! 0 = sum_list (map (spec_pair_residual std_kernel (entity_pose x_two 0) (entity_pose x_two 1))
                       [(Pnt (0, 0, 0), Pnt (0, 0, 0))])"
    by simp
  show ?thesis using e c by simp
qed

text \<open>
  Claim C3, as amended. The residual evaluation branches on the type of the first
  marker of a pair and never compares the two kinds. When the first marker of a pair is
  neither a point nor a direction, while the indices of its constraint are below \<open>ne\<close>
  and every earlier constraint and earlier pair is well formed, the evaluation raises
  \<open>NotImplementedError\<close> at every vector of length \<open>6 * ne\<close>; \<open>solve()\<close> ends with
  that exception and returns no pose, provided the optimizer lets an exception of the
  residual at the initial vector through. A pair of a point and a direction raises
  nothing: it adds the distance between the transformed point and the coordinates of
  the transformed direction.
\<close>

theorem unknown_first_marker_raises:
  assumes "init locs (cs1 @ ((k1, k2), (ms1, ms2)) # cs2) = Inr s"
    and "\<forall>c\<in>set cs1. well_kinded (length locs) c"
    and "k1 < length locs" and "k2 < length locs"
    and "zip ms1 ms2 = ps1 @ (Other obj, m2) # ps2"
    and "\<forall>(a, b)\<in>set ps1. same_kind a b"
    and "length x = 6 * length locs"
    and "\<forall>e. cost K s (ravel (entities s)) = Inl e \<longrightarrow>
             lsq (cost K s) (ravel (entities s)) (jacobianSparsity s) = Inl e"
  shows "cost K s x = Inl NotImplementedError
     \<and> solve K lsq s = Inl NotImplementedError
     \<and> pair_term K t1 t2 (Pnt p) (Dir d)
         = Inr (Modulus (vsub (pnt_transformed K t1 p) (dir_transformed K t2 d)))"
proof -
  let ?cs = "cs1 @ ((k1, k2), (ms1, ms2)) # cs2"
  have f: "constraints s = ?cs" "ne s = length locs" "nc s = length ?cs"
    using init_fields [OF assms(1)] by simp_all
  have raise: "cost K s y = Inl NotImplementedError" if y: "length y = 6 * length locs" for y
  proof -
    have y': "length y = 6 * ne s" using y f by simp
    let ?ts = "map (entity_pose y) [0..<ne s]"
    have "constraint_loop K ?ts 0 ?cs (replicate (nc s) 0) = Inl NotImplementedError"
      using assms(2,3,4) f
      by (intro constraint_loop_first_other [OF _ _ _ assms(5) assms(6)]) simp_all
    then show ?thesis using cost_as_loop [OF y', of K] f by simp
  qed
  have c: "cost K s x = Inl NotImplementedError" using assms(7) by (rule raise)
  have "cost K s (ravel (entities s)) = Inl NotImplementedError"
    using init_x0_length [OF assms(1)] by (rule raise)
  then have "lsq (cost K s) (ravel (entities s)) (jacobianSparsity s) = Inl NotImplementedError"
    using assms(8) by blast
  then have s: "solve K lsq s = Inl NotImplementedError" by (simp add: solve_def Let_def)
  have p: "pair_term K t1 t2 (Pnt p) (Dir d)
         = Inr (Modulus (vsub (pnt_transformed K t1 p) (dir_transformed K t2 d)))" by simp
  show ?thesis using c s p by blast
qed

text \<open>The amended claim C3 at one constraint whose first marker is of another type.\<close>

theorem unknown_first_marker_raises_witness:
  "cost std_kernel (solver_of cs_other) x_two = Inl NotImplementedError
   \<and> solve std_kernel lsq_initial (solver_of cs_other) = Inl NotImplementedError"
proof -
  have h1: "init [pose_id, pose_x1] ([] @ ((0, 1), ([Other None], [Pnt (0, 0, 0)])) # [])
            = Inr (solver_of cs_other)"
    using init_two [of cs_other] by (simp add: cs_other_def)
  have h2: "\<forall>c\<in>set []. well_kinded (length [pose_id, pose_x1]) c" by simp
  have h3: "0 < length [pose_id, pose_x1]" "1 < length [pose_id, pose_x1]" by simp_all
  have h5: "zip [Other None] [Pnt (0, 0, 0)] = [] @ (Other None, Pnt (0, 0, 0)) # []" by simp
  have h6: "\<forall>(a, b)\<in>set []. same_kind a b" by simp
  have h7: "length x_two = 6 * length [pose_id, pose_x1]" by (simp add: x_two_def)
  have h8: "\<forall>e. cost std_kernel (solver_of cs_other) (ravel (entities (solver_of cs_other))) = Inl e \<longrightarrow>
             lsq_initial (cost std_kernel (solver_of cs_other)) (ravel (entities (solver_of cs_other)))
               (jacobianSparsity (solver_of cs_other)) = Inl e"
    by (simp add: lsq_initial_def)
  show ?thesis
    using unknown_first_marker_raises
      [of "[pose_id, pose_x1]" "[]" 0 1 "[Other None]" "[Pnt (0, 0, 0)]" "[]" "solver_of cs_other"
          "[]" None "Pnt (0, 0, 0)" "[]" x_two std_kernel lsq_initial, OF h1 h2 h3 h5 h6 h7 h8]
    by blast
qed

text \<open>
  Claim C3 as stated says that a pair of one point and one direction raises. With the
  point first the residual is evaluated (it is \<open>1\<close>), and \<open>solve()\<close> with the optimizer
  that returns its initial vector returns two poses.
\<close>

theorem point_direction_pair_counterexample:
  "init [pose_id, pose_x1] cs_point_direction = Inr (solver_of cs_point_direction)
   \<and> cost std_kernel (solver_of cs_point_direction) x_two = Inr [1]
   \<and> solve std_kernel lsq_initial (solver_of cs_point_direction) = Inr [pose_id, pose_id]"
proof -
  have c: "cost std_kernel (solver_of cs_point_direction) x_two = Inr [1]"
    by (simp add: cost_def solver_of_def transforms_two cs_point_direction_def
      std_kernel_pose_id Modulus_def vsub_def)
  have x0: "ravel (entities (solver_of cs_point_direction)) = x_two"
    by (simp add: solver_of_def x_two_def)
  have "solve std_kernel lsq_initial (solver_of cs_point_direction)
        = build_transforms x_two [0..<2]"
    using c by (simp add: solve_def Let_def lsq_initial_def x0) (simp add: solver_of_def)
  then show ?thesis using c init_two transforms_two by simp
qed

section \<open>Rounding of the last quaternion component\<close>

lemma round_ties_even_near:
  assumes "of_int k \<le> r" and "r < of_int k + 1/2"
  shows "round_ties_even r = k"
proof -
  have "\<lfloor>r\<rfloor> = k" using assms by (intro floor_unique) simp_all
  then show ?thesis using assms by (simp add: round_ties_even_def Let_def)
qed

lemma binary64_eval:
  assumes lo: "2 powr of_int e \<le> \<bar>r\<bar>" and hi: "\<bar>r\<bar> < 2 powr of_int (e + 1)"
    and k: "round_ties_even (r / 2 powr of_int (e - 52)) = k"
  shows "binary64 r = of_int k * 2 powr of_int (e - 52)"
proof -
  have pos: "0 < \<bar>r\<bar>" using lo by (smt (verit) powr_gt_zero)
  have "\<lfloor>log 2 \<bar>r\<bar>\<rfloor> = e"
    using lo hi pos by (simp add: floor_log_eq_powr_iff)
  moreover have "r \<noteq> 0" using pos by simp
  ultimately show ?thesis using k by (simp add: binary64_def Let_def)
qed

lemma binary64_zero: "binary64 0 = 0"
  by (simp add: binary64_def)

lemma binary64_1e10: "binary64 (10 ^ 10) = 10 ^ 10"
proof -
  have k: "round_ties_even (10 ^ 10 / 2 powr of_int (33 - 52)) = 5242880000000000"
    by (intro round_ties_even_near) (simp_all add: powr_minus)
  have "binary64 (10 ^ 10) = of_int 5242880000000000 * 2 powr of_int (33 - 52)"
    by (rule binary64_eval [OF _ _ k]) (simp_all add: powr_minus)
  then show ?thesis by (simp add: powr_minus)
qed

lemma binary64_1e20: "binary64 (10 ^ 20) = 10 ^ 20"
proof -
  have k: "round_ties_even (10 ^ 20 / 2 powr of_int (66 - 52)) = 6103515625000000"
    by (intro round_ties_even_near) simp_all
  have "binary64 (10 ^ 20) = of_int 6103515625000000 * 2 powr of_int (66 - 52)"
    by (rule binary64_eval [OF _ _ k]) simp_all
  then show ?thesis by simp
qed

lemma binary64_1e20_plus_1: "binary64 (10 ^ 20 + 1) = 10 ^ 20"
proof -
  have k: "round_ties_even ((10 ^ 20 + 1) / 2 powr of_int (66 - 52)) = 6103515625000000"
    by (intro round_ties_even_near) simp_all
  have "binary64 (10 ^ 20 + 1) = of_int 6103515625000000 * 2 powr of_int (66 - 52)"
    by (rule binary64_eval [OF _ _ k]) simp_all
  then show ?thesis by simp
qed

lemma binary64_1_minus_1e20: "binary64 (1 - 10 ^ 20) = - (10 ^ 20)"
proof -
  have k: "round_ties_even ((1 - 10 ^ 20) / 2 powr of_int (66 - 52)) = - 6103515625000000"
    by (intro round_ties_even_near) simp_all
  have "binary64 (1 - 10 ^ 20) = of_int (- 6103515625000000) * 2 powr of_int (66 - 52)"
    by (rule binary64_eval [OF _ _ k]) simp_all
  then show ?thesis by simp
qed

lemma binary64_minus_1: "binary64 (- 1) = - 1"
proof -
  have k: "round_ties_even (- 1 / 2 powr of_int (0 - 52)) = - 4503599627370496"
    by (intro round_ties_even_near) (simp_all add: powr_minus)
  have "binary64 (- 1) = of_int (- 4503599627370496) * 2 powr of_int (0 - 52)"
    by (rule binary64_eval [OF _ _ k]) (simp_all add: powr_minus)
  then show ?thesis by (simp add: powr_minus)
qed

text \<open>
  Claim C10 as stated says that for all finite \<open>(a, b, c)\<close> the w-component built by
  \<open>_build_transform\<close> lies in the interval from \<open>-1\<close> (excluded) to \<open>1\<close>. In double
  arithmetic, at \<open>a = 10^10\<close> (a double) and \<open>b = c = 0\<close>, the sum \<open>m\<close> is \<open>10^20\<close>,
  both \<open>1 - m\<close> and \<open>m + 1\<close> round to magnitude \<open>10^20\<close>, and the quotient is
  exactly \<open>-1\<close>.
\<close>

theorem w_binary64_reaches_minus_one:
  "binary64 (10 ^ 10) = 10 ^ 10
   \<and> w_binary64 (10 ^ 10) 0 0 = - 1
   \<and> \<not> (- 1 < w_binary64 (10 ^ 10) 0 0)"
proof -
  have sq: "(10 ^ 10 :: real) * 10 ^ 10 = 10 ^ 20" by simp
  have w: "w_binary64 (10 ^ 10) 0 0 = - 1"
    unfolding w_binary64_def Let_def sq
    by (simp only: mult_zero_left binary64_zero add_0_right binary64_1e20
        binary64_1e20_plus_1 binary64_1_minus_1e20) (simp add: binary64_minus_1)
  show ?thesis using binary64_1e10 w by simp
qed

section \<open>Construction and the errors of solve\<close>







text \<open>
  Claim C10, as amended. In exact arithmetic the w-component that \<open>_build_transform\<close>
  hands to the kernel is \<open>(1 - m) / (m + 1)\<close> with \<open>m = a\<^sup>2 + b\<^sup>2 + c\<^sup>2 \<ge> 0\<close> and
  lies in the interval from \<open>-1\<close> (excluded) to \<open>1\<close> (included). The pose that comes
  back holds that quaternion divided by its norm, with the sign of \<open>GetRotation()\<close>:
  its \<open>w\<close> is at least \<open>-1/2\<close>, so the divisor \<open>1 + w\<close> of \<open>_locToDOF6\<close> is at least
  \<open>1/2\<close> and decoding a pose produced by the encoder does not raise.
\<close>

theorem encode_w_exact_and_decode_defined:
  "qw (encoder_quaternion a b c) = (1 - (a\<^sup>2 + b\<^sup>2 + c\<^sup>2)) / ((a\<^sup>2 + b\<^sup>2 + c\<^sup>2) + 1)
   \<and> 0 \<le> a\<^sup>2 + b\<^sup>2 + c\<^sup>2
   \<and> -1 < qw (encoder_quaternion a b c)
   \<and> qw (encoder_quaternion a b c) \<le> 1
   \<and> rotation (build_transform x y z a b c) = canonical (Normalized (encoder_quaternion a b c))
   \<and> 1/2 \<le> 1 + qw (rotation (build_transform x y z a b c))
   \<and> locToDOF6 (build_transform x y z a b c) = Inr (decode_spec (build_transform x y z a b c))"
proof -
  let ?m = "a\<^sup>2 + b\<^sup>2 + c\<^sup>2"
  let ?w = "qw (encoder_quaternion a b c)"
  have m0: "0 \<le> ?m" by simp
  have w: "?w = (1 - ?m) / (?m + 1)" by (rule encoder_quaternion_qw)
  have lo: "-1 < ?w" unfolding w using m0 by (rule cayley_w_bounds(1))
  have hi: "?w \<le> 1" unfolding w using m0 by (rule cayley_w_bounds(2))
  have r: "rotation (build_transform x y z a b c) = canonical (Normalized (encoder_quaternion a b c))"
    by (simp add: build_transform_eq)
  have d: "1/2 \<le> 1 + qw (rotation (build_transform x y z a b c))"
    unfolding r using canonical_w_lower [of "Normalized (encoder_quaternion a b c)"] by simp
  then have "1 + qw (rotation (build_transform x y z a b c)) \<noteq> 0" by simp
  then have ok: "locToDOF6 (build_transform x y z a b c) = Inr (decode_spec (build_transform x y z a b c))"
    by (rule locToDOF6_returns)
  show ?thesis using m0 w lo hi r d ok by blast
qed

end
